theory Spec2Isabelle
  imports Main "HOL-Library.AList"
begin

section \<open>Calendar dates\<close>

text \<open>
  A \<^verbatim>\<open>datetime.date\<close> is a year, a month and a day; Python (and the DATE column of the
  store) order dates chronologically, which is the lexicographic order on the three
  components.  \<^verbatim>\<open>date.today()\<close> is an input of every operation that reads it.
\<close>

record date =
  year :: int
  month :: int
  day :: int

definition date_le :: "date \<Rightarrow> date \<Rightarrow> bool" where
  "date_le a b =
     (year a < year b \<or>
      (year a = year b \<and> (month a < month b \<or> (month a = month b \<and> day a \<le> day b))))"

text \<open>\<^verbatim>\<open>date(today.year, today.month, 1)\<close>\<close>

definition first_of_month :: "date \<Rightarrow> date" where
  "first_of_month today = \<lparr>year = year today, month = month today, day = 1\<rparr>"

text \<open>The calendar month of \<open>d\<close> lies before the calendar month of \<open>today\<close>.\<close>

definition earlier_month :: "date \<Rightarrow> date \<Rightarrow> bool" where
  "earlier_month d today =
     (year d < year today \<or> (year d = year today \<and> month d < month today))"

section \<open>The store\<close>

text \<open>
  Rows come back from the cursor as dictionaries with the table's columns as keys; the
  tables \<^verbatim>\<open>users\<close> and \<^verbatim>\<open>usage_logs\<close> are read by fixed keys only, so their rows
  are records.  A table is the list of its rows in insertion order, \<^verbatim>\<open>fetchone\<close> is
  the first row of the selection, and the AUTO_INCREMENT counter of a table is part of
  the state.
\<close>

record user =
  user_id :: int
  username :: string
  email :: string
  api_key :: string
  tier :: string

record usage_log =
  log_id :: int
  log_user_id :: int
  log_date :: date
  calls_today :: int
  projects_this_month :: int

datatype sql_value = SqlInt int | SqlStr string | SqlNull

text \<open>
  The table \<^verbatim>\<open>presets\<close> is also written by column names that arrive as data
  (\<^verbatim>\<open>update_preset\<close>), so a row of it is the dictionary itself: the list of its
  (column, value) pairs in column order.  Values are stored as they are given; the
  store's own coercions between column types are not part of the model.
\<close>

type_synonym preset_row = "(string \<times> sql_value) list"

record database =
  users :: "user list"
  usage_logs :: "usage_log list"
  presets :: "preset_row list"
  next_user_id :: int
  next_log_id :: int
  next_preset_id :: int

subsection \<open>Statements on \<^verbatim>\<open>usage_logs\<close>\<close>

text \<open>\<^verbatim>\<open>SELECT ... FROM usage_logs WHERE user_id=%s AND log_date=%s\<close>, then \<^verbatim>\<open>fetchone()\<close>\<close>

definition select_usage :: "database \<Rightarrow> int \<Rightarrow> date \<Rightarrow> usage_log option" where
  "select_usage db uid d =
     find (\<lambda>r. log_user_id r = uid \<and> log_date r = d) (usage_logs db)"

text \<open>\<^verbatim>\<open>INSERT INTO usage_logs (user_id, log_date, calls_today, projects_this_month) VALUES (...)\<close>\<close>

definition insert_usage :: "database \<Rightarrow> int \<Rightarrow> date \<Rightarrow> int \<Rightarrow> int \<Rightarrow> database" where
  "insert_usage db uid d calls projects =
     db\<lparr>usage_logs := usage_logs db @
           [\<lparr>log_id = next_log_id db, log_user_id = uid, log_date = d,
             calls_today = calls, projects_this_month = projects\<rparr>],
        next_log_id := next_log_id db + 1\<rparr>"

text \<open>\<^verbatim>\<open>UPDATE usage_logs SET calls_today=calls_today+1 WHERE id=%s\<close>\<close>

definition update_calls :: "database \<Rightarrow> int \<Rightarrow> database" where
  "update_calls db i =
     db\<lparr>usage_logs :=
          map (\<lambda>r. if log_id r = i then r\<lparr>calls_today := calls_today r + 1\<rparr> else r)
            (usage_logs db)\<rparr>"

text \<open>\<^verbatim>\<open>UPDATE usage_logs SET projects_this_month=projects_this_month+1 WHERE id=%s\<close>\<close>

definition update_projects :: "database \<Rightarrow> int \<Rightarrow> database" where
  "update_projects db i =
     db\<lparr>usage_logs :=
          map (\<lambda>r. if log_id r = i
                    then r\<lparr>projects_this_month := projects_this_month r + 1\<rparr> else r)
            (usage_logs db)\<rparr>"

text \<open>
  \<^verbatim>\<open>SELECT SUM(projects_this_month) as total FROM usage_logs WHERE user_id=%s AND log_date >= %s\<close>:
  the aggregate of no rows is NULL (\<open>None\<close>).
\<close>

definition select_sum_projects :: "database \<Rightarrow> int \<Rightarrow> date \<Rightarrow> int option" where
  "select_sum_projects db uid since =
     (case filter (\<lambda>r. log_user_id r = uid \<and> date_le since (log_date r)) (usage_logs db) of
        [] \<Rightarrow> None
      | rs \<Rightarrow> Some (sum_list (map projects_this_month rs)))"

section \<open>services.py: the quota checks\<close>

definition ensure_usage_row :: "int \<Rightarrow> date \<Rightarrow> database \<Rightarrow> database" where
  "ensure_usage_row uid for_date db =
     (case select_usage db uid for_date of
        None \<Rightarrow> insert_usage db uid for_date 0 0
      | Some r \<Rightarrow> db)"

definition increment_call_and_check_limit ::
  "date \<Rightarrow> int \<Rightarrow> int \<Rightarrow> database \<Rightarrow> bool \<times> database" where
  "increment_call_and_check_limit today uid daily_limit db =
     (case select_usage db uid today of
        None \<Rightarrow> (True, insert_usage db uid today 1 0)
      | Some r \<Rightarrow>
          if calls_today r + 1 > daily_limit then (False, db)
          else (True, update_calls db (log_id r)))"

text \<open>The variable \<^verbatim>\<open>total\<close> of the monthly check: \<^verbatim>\<open>r['total'] or 0\<close>.\<close>

definition month_total :: "date \<Rightarrow> int \<Rightarrow> database \<Rightarrow> int" where
  "month_total today uid db =
     (case select_sum_projects db uid (first_of_month today) of
        None \<Rightarrow> 0
      | Some t \<Rightarrow> if t = 0 then 0 else t)"

definition increment_project_and_check_limit ::
  "date \<Rightarrow> int \<Rightarrow> int \<Rightarrow> database \<Rightarrow> bool \<times> database" where
  "increment_project_and_check_limit today uid month_limit db =
     (let total = month_total today uid db in
      if total + 1 > month_limit then (False, db)
      else (case select_usage db uid today of
              None \<Rightarrow> (True, insert_usage db uid today 0 1)
            | Some row \<Rightarrow> (True, update_projects db (log_id row))))"

text \<open>A number of calls of the daily check, one after the other, on one day.\<close>

fun daily_calls :: "nat \<Rightarrow> date \<Rightarrow> int \<Rightarrow> int \<Rightarrow> database \<Rightarrow> bool list \<times> database" where
  "daily_calls 0 today uid daily_limit db = ([], db)"
| "daily_calls (Suc n) today uid daily_limit db =
     (case increment_call_and_check_limit today uid daily_limit db of
        (ok, db') \<Rightarrow>
          (case daily_calls n today uid daily_limit db' of
             (oks, db'') \<Rightarrow> (ok # oks, db'')))"


subsection \<open>The two steps of the daily check, for concurrent callers\<close>

text \<open>
  The daily check issues two statements on its connection: the SELECT, and then, from
  the row it fetched, the INSERT or the UPDATE (or nothing).  The connection is opened
  with the store's default isolation and the SELECT takes no lock, so statements of
  other callers can run between the two.  A caller is at one of three points.  The table
  is the list of its rows with no constraint of its own (the repository has no schema):
  where the table is declared with one row per user and day, the INSERT of a caller that
  read no row, after another caller has inserted it, raises instead.
\<close>

datatype call_state = NotStarted | Selected "usage_log option" | Returned bool

definition call_step ::
  "date \<Rightarrow> int \<Rightarrow> int \<Rightarrow> call_state \<Rightarrow> database \<Rightarrow> call_state \<times> database" where
  "call_step today uid daily_limit st db =
     (case st of
        NotStarted \<Rightarrow> (Selected (select_usage db uid today), db)
      | Selected None \<Rightarrow> (Returned True, insert_usage db uid today 1 0)
      | Selected (Some r) \<Rightarrow>
          if calls_today r + 1 > daily_limit then (Returned False, db)
          else (Returned True, update_calls db (log_id r))
      | Returned b \<Rightarrow> (Returned b, db))"

text \<open>A schedule names, step by step, the caller that runs its next statement.\<close>

fun run_schedule ::
  "date \<Rightarrow> int \<Rightarrow> int \<Rightarrow> nat list \<Rightarrow> call_state list \<Rightarrow> database
     \<Rightarrow> call_state list \<times> database" where
  "run_schedule today uid daily_limit [] sts db = (sts, db)"
| "run_schedule today uid daily_limit (i # sched) sts db =
     (if i < length sts then
        (case call_step today uid daily_limit (sts ! i) db of
           (st', db') \<Rightarrow> run_schedule today uid daily_limit sched (sts[i := st']) db')
      else run_schedule today uid daily_limit sched sts db)"

section \<open>services.py: users and presets\<close>

datatype failure = HTTPException int string | TypeError | SqlError

text \<open>\<^verbatim>\<open>SELECT * FROM users WHERE api_key=%s\<close>, then \<^verbatim>\<open>fetchone()\<close>\<close>

definition get_user_by_api_key :: "database \<Rightarrow> string \<Rightarrow> user option" where
  "get_user_by_api_key db k = find (\<lambda>u. api_key u = k) (users db)"

definition preset_columns :: "string list" where
  "preset_columns =
     [''id'', ''user_id'', ''name'', ''template'', ''git_init'', ''use_venv'', ''license_type'']"

text \<open>\<^verbatim>\<open>WHERE user_id=%s\<close> and \<^verbatim>\<open>WHERE id=%s AND user_id=%s\<close> on a row of \<^verbatim>\<open>presets\<close>\<close>

definition owned_by :: "int \<Rightarrow> preset_row \<Rightarrow> bool" where
  "owned_by uid r = (map_of r ''user_id'' = Some (SqlInt uid))"

definition matches :: "int \<Rightarrow> int \<Rightarrow> preset_row \<Rightarrow> bool" where
  "matches pid uid r = (map_of r ''id'' = Some (SqlInt pid) \<and> owned_by uid r)"

text \<open>\<^verbatim>\<open>int(git_init)\<close> on an \<^verbatim>\<open>Optional[bool]\<close>: \<^verbatim>\<open>int(None)\<close> raises TypeError.\<close>

definition int_of_flag :: "bool option \<Rightarrow> int option" where
  "int_of_flag b = (case b of None \<Rightarrow> None | Some v \<Rightarrow> Some (if v then 1 else 0))"

definition sql_of_str :: "string option \<Rightarrow> sql_value" where
  "sql_of_str s = (case s of None \<Rightarrow> SqlNull | Some v \<Rightarrow> SqlStr v)"

definition sql_of_flag :: "bool option \<Rightarrow> sql_value" where
  "sql_of_flag b = (case b of None \<Rightarrow> SqlNull | Some v \<Rightarrow> SqlInt (if v then 1 else 0))"

definition create_preset ::
  "int \<Rightarrow> string \<Rightarrow> string \<Rightarrow> bool option \<Rightarrow> bool option \<Rightarrow> string option \<Rightarrow> database
     \<Rightarrow> (failure + preset_row option) \<times> database" where
  "create_preset uid nm tmpl git venv lic db =
     (case (int_of_flag git, int_of_flag venv) of
        (Some g, Some v) \<Rightarrow>
          (let row = [(''id'', SqlInt (next_preset_id db)), (''user_id'', SqlInt uid),
                      (''name'', SqlStr nm), (''template'', SqlStr tmpl),
                      (''git_init'', SqlInt g), (''use_venv'', SqlInt v),
                      (''license_type'', sql_of_str lic)];
               db' = db\<lparr>presets := presets db @ [row],
                        next_preset_id := next_preset_id db + 1\<rparr>
           in (Inr (find (\<lambda>r. map_of r ''id'' = Some (SqlInt (next_preset_id db)))
                      (presets db')), db'))
      | _ \<Rightarrow> (Inl TypeError, db))"

definition list_presets :: "int \<Rightarrow> database \<Rightarrow> preset_row list" where
  "list_presets uid db = filter (owned_by uid) (presets db)"

definition get_preset :: "int \<Rightarrow> int \<Rightarrow> database \<Rightarrow> preset_row option" where
  "get_preset uid pid db = find (matches pid uid) (presets db)"

text \<open>
  \<^verbatim>\<open>UPDATE presets SET k1=%s,k2=%s,... WHERE id=%s AND user_id=%s\<close>, the keys of
  \<^verbatim>\<open>data\<close> written into the text of the statement as they are.  With no key the SET
  clause is empty and the store refuses the statement; the exception leaves
  \<^verbatim>\<open>update_preset\<close> before the commit.  When every key is the name of a column, the
  statement assigns the values, from left to right, in the rows that match the id and the
  owner.  A key that is not the name of a column becomes part of the statement as text:
  what the store makes of such a statement, an error or any new contents of the table, is
  the input \<open>spliced\<close> (given the data, the id, the owner and the table).
\<close>

type_synonym spliced_update =
  "(string \<times> sql_value) list \<Rightarrow> int \<Rightarrow> int \<Rightarrow> preset_row list \<Rightarrow> failure + preset_row list"

definition assign :: "(string \<times> sql_value) list \<Rightarrow> preset_row \<Rightarrow> preset_row" where
  "assign data r = fold (\<lambda>(k, v). AList.update k v) data r"

definition update_preset ::
  "spliced_update \<Rightarrow> int \<Rightarrow> int \<Rightarrow> (string \<times> sql_value) list \<Rightarrow> database
     \<Rightarrow> (failure + preset_row option) \<times> database" where
  "update_preset spliced uid pid data db =
     (if data = [] then (Inl SqlError, db)
      else if list_all (\<lambda>k. k \<in> set preset_columns) (map fst data) then
        (let db' = db\<lparr>presets :=
                        map (\<lambda>r. if matches pid uid r then assign data r else r) (presets db)\<rparr>
         in (Inr (get_preset uid pid db'), db'))
      else
        (case spliced data pid uid (presets db) of
           Inl e \<Rightarrow> (Inl e, db)
         | Inr rows \<Rightarrow>
             (let db' = db\<lparr>presets := rows\<rparr>
              in (Inr (get_preset uid pid db'), db'))))"

text \<open>\<^verbatim>\<open>DELETE FROM presets WHERE id=%s AND user_id=%s\<close>; \<^verbatim>\<open>cur.rowcount > 0\<close>\<close>

definition delete_preset :: "int \<Rightarrow> int \<Rightarrow> database \<Rightarrow> bool \<times> database" where
  "delete_preset uid pid db =
     (0 < length (filter (matches pid uid) (presets db)),
      db\<lparr>presets := filter (\<lambda>r. \<not> matches pid uid r) (presets db)\<rparr>)"

subsection \<open>Views of the table of presets\<close>

text \<open>The store with the presets of one user only: every other user's preset removed.\<close>

definition own_presets :: "int \<Rightarrow> database \<Rightarrow> database" where
  "own_presets uid db = db\<lparr>presets := filter (owned_by uid) (presets db)\<rparr>"

text \<open>The columns a request body can set: the fields of \<^verbatim>\<open>PresetIn\<close>.\<close>

definition preset_fields :: "string list" where
  "preset_fields = [''name'', ''template'', ''git_init'', ''use_venv'', ''license_type'']"

section \<open>main.py: the request gate and the endpoints\<close>

text \<open>
  The limits \<^verbatim>\<open>DAILY_LIMIT\<close> and \<^verbatim>\<open>MONTH_LIMIT\<close> are read from the environment when
  the module is loaded; they are parameters here.  (The handler of the home page names
  \<^verbatim>\<open>HTMLResponse\<close>, which the module does not import; the gate and the endpoints are
  modelled as they are written.)
\<close>

definition ALLOWED_FREE_TEMPLATES :: "string list" where
  "ALLOWED_FREE_TEMPLATES = [''flask'', ''fastapi'', ''basic-python'']"

text \<open>
  \<^verbatim>\<open>PresetIn\<close> and \<^verbatim>\<open>CreateRequest\<close> have the same fields and defaults; a field the
  request body leaves out holds its default.
\<close>

record PresetIn =
  name :: string
  template :: string
  git_init :: "bool option"
  use_venv :: "bool option"
  license_type :: "string option"

type_synonym CreateRequest = PresetIn

text \<open>The model built from a body that gives \<^verbatim>\<open>name\<close> and \<^verbatim>\<open>template\<close> only.\<close>

definition PresetIn_defaults :: "string \<Rightarrow> string \<Rightarrow> PresetIn" where
  "PresetIn_defaults nm tmpl =
     \<lparr>name = nm, template = tmpl, git_init = Some False, use_venv = Some False,
      license_type = None\<rparr>"

text \<open>\<^verbatim>\<open>payload.dict()\<close>, with the values as the driver writes them into a statement.\<close>

definition PresetIn_dict :: "PresetIn \<Rightarrow> (string \<times> sql_value) list" where
  "PresetIn_dict p =
     [(''name'', SqlStr (name p)), (''template'', SqlStr (template p)),
      (''git_init'', sql_of_flag (git_init p)), (''use_venv'', sql_of_flag (use_venv p)),
      (''license_type'', sql_of_str (license_type p))]"

definition require_api_key ::
  "int \<Rightarrow> date \<Rightarrow> string option \<Rightarrow> database \<Rightarrow> (failure + user) \<times> database" where
  "require_api_key DAILY_LIMIT today x_api_key db =
     (case x_api_key of
        None \<Rightarrow> (Inl (HTTPException 401 ''Missing X-API-Key header''), db)
      | Some k \<Rightarrow>
          if k = [] then (Inl (HTTPException 401 ''Missing X-API-Key header''), db)
          else
            (case get_user_by_api_key db k of
               None \<Rightarrow> (Inl (HTTPException 401 ''Invalid API key''), db)
             | Some u \<Rightarrow>
                 (case increment_call_and_check_limit today (user_id u) DAILY_LIMIT db of
                    (ok, db') \<Rightarrow>
                      if \<not> ok
                      then (Inl (HTTPException 429 ''Daily API call limit exceeded''), db')
                      else (Inr u, db'))))"

text \<open>
  \<^verbatim>\<open>user=Depends(require_api_key)\<close>: the framework runs the gate, and the endpoint's
  body only when the gate returned a user.
\<close>

definition Depends_require_api_key ::
  "int \<Rightarrow> date \<Rightarrow> string option \<Rightarrow> (user \<Rightarrow> database \<Rightarrow> (failure + 'a) \<times> database)
     \<Rightarrow> database \<Rightarrow> (failure + 'a) \<times> database" where
  "Depends_require_api_key DAILY_LIMIT today x_api_key endpoint db =
     (case require_api_key DAILY_LIMIT today x_api_key db of
        (Inl e, db') \<Rightarrow> (Inl e, db')
      | (Inr u, db') \<Rightarrow> endpoint u db')"

definition add_preset ::
  "PresetIn \<Rightarrow> user \<Rightarrow> database \<Rightarrow> (failure + preset_row option) \<times> database" where
  "add_preset p u db =
     (if template p \<notin> set ALLOWED_FREE_TEMPLATES
      then (Inl (HTTPException 403 ''Template not allowed for free tier''), db)
      else create_preset (user_id u) (name p) (template p) (git_init p) (use_venv p)
             (license_type p) db)"

definition get_presets :: "user \<Rightarrow> database \<Rightarrow> (failure + preset_row list) \<times> database" where
  "get_presets u db = (Inr (list_presets (user_id u) db), db)"

definition put_preset ::
  "spliced_update \<Rightarrow> int \<Rightarrow> PresetIn \<Rightarrow> user \<Rightarrow> database
     \<Rightarrow> (failure + preset_row) \<times> database" where
  "put_preset spliced pid payload u db =
     (if template payload \<notin> set ALLOWED_FREE_TEMPLATES
      then (Inl (HTTPException 403 ''Template not allowed for free tier''), db)
      else
        (case update_preset spliced (user_id u) pid (PresetIn_dict payload) db of
           (Inl e, db') \<Rightarrow> (Inl e, db')
         | (Inr None, db') \<Rightarrow> (Inl (HTTPException 404 ''Preset not found''), db')
         | (Inr (Some updated), db') \<Rightarrow> (Inr updated, db')))"

text \<open>The body \<^verbatim>\<open>{'deleted': True}\<close> is the unit value.\<close>

definition remove_preset :: "int \<Rightarrow> user \<Rightarrow> database \<Rightarrow> (failure + unit) \<times> database" where
  "remove_preset pid u db =
     (case delete_preset (user_id u) pid db of
        (ok, db') \<Rightarrow>
          if \<not> ok then (Inl (HTTPException 404 ''Preset not found''), db')
          else (Inr (), db'))"

text \<open>
  The work of \<^verbatim>\<open>create_project\<close>: the files a template writes under the temporary
  project root, each as the parts of its relative path, and the answer, a manifest of the
  files or the archive of those the archiver keeps.  This is the work for a project name
  that is one path component and not the name of a file the template writes itself (with
  such a name the writing raises, after the monthly check has counted the project); the
  manifest lists the files in the order the directory gives them, which is taken to be
  the order they were written in.
\<close>

definition project_files :: "string \<Rightarrow> string \<Rightarrow> string list list" where
  "project_files tmpl nm =
     (if tmpl = ''basic-python'' then [[nm, ''__init__.py''], [''README.md''], [''main.py'']]
      else if tmpl = ''flask'' then [[nm, ''app.py''], [''requirements.txt'']]
      else if tmpl = ''fastapi'' then [[''app'', ''main.py''], [''requirements.txt'']]
      else [])"

definition create_zip_archive :: "string list list \<Rightarrow> string list list" where
  "create_zip_archive files =
     filter (\<lambda>parts. \<not> (''.git'' \<in> set parts \<or> ''venv'' \<in> set parts)) files"

datatype project_response = Manifest string "string list list" | ZipFile string "string list list"

definition create_project ::
  "int \<Rightarrow> date \<Rightarrow> CreateRequest \<Rightarrow> bool \<Rightarrow> user \<Rightarrow> database
     \<Rightarrow> (failure + project_response) \<times> database" where
  "create_project MONTH_LIMIT today req download u db =
     (if template req \<notin> set ALLOWED_FREE_TEMPLATES
      then (Inl (HTTPException 403 ''Template not allowed for free tier''), db)
      else
        (case increment_project_and_check_limit today (user_id u) MONTH_LIMIT db of
           (ok, db') \<Rightarrow>
             if \<not> ok then (Inl (HTTPException 429 ''Monthly project limit exceeded''), db')
             else
               (let files = project_files (template req) (name req) in
                if download then (Inr (ZipFile (name req) (create_zip_archive files)), db')
                else (Inr (Manifest (name req) files), db'))))"

text \<open>\<^verbatim>\<open>create_and_download\<close> calls \<^verbatim>\<open>create_project\<close> with \<^verbatim>\<open>download=True\<close>.\<close>

definition create_and_download ::
  "int \<Rightarrow> date \<Rightarrow> CreateRequest \<Rightarrow> user \<Rightarrow> database
     \<Rightarrow> (failure + project_response) \<times> database" where
  "create_and_download MONTH_LIMIT today req u db =
     create_project MONTH_LIMIT today req True u db"

text \<open>The daily counter of a user on a day, zero when the day has no row.\<close>

definition calls_on :: "database \<Rightarrow> int \<Rightarrow> date \<Rightarrow> int" where
  "calls_on db uid d = (case select_usage db uid d of None \<Rightarrow> 0 | Some r \<Rightarrow> calls_today r)"

section \<open>db.py: the connection pool\<close>

text \<open>
  A connection is known by a number and by its flag \<^verbatim>\<open>conn.open\<close>.  Opening one
  (\<^verbatim>\<open>_create_connection\<close>) reaches the database server, so its outcome is an input:
  \<open>Some\<close> a connection, or \<open>None\<close> when the attempt raises.  (The module passes
  \<^verbatim>\<open>db=MYSQL_DB\<close> to the driver and defines \<^verbatim>\<open>MYSQLDATABASE\<close> only; the database
  name is taken as given.)
\<close>

record connection =
  conn_id :: nat
  is_open :: bool

text \<open>
  \<^verbatim>\<open>queue.Queue(maxsize=POOL_MAX)\<close>: the queue is bounded when \<open>maxsize\<close> is positive
  and unbounded otherwise.  \<^verbatim>\<open>put\<close> waits while the queue is full (\<open>None\<close>: it
  never returns); \<^verbatim>\<open>get(block=True, timeout=5)\<close> on a queue that stays empty raises
  \<^verbatim>\<open>queue.Empty\<close> (\<open>None\<close>).
\<close>

definition queue_put :: "int \<Rightarrow> connection list \<Rightarrow> connection \<Rightarrow> connection list option" where
  "queue_put maxsize q c =
     (if 0 < maxsize \<and> maxsize \<le> int (length q) then None else Some (q @ [c]))"

definition queue_get :: "connection list \<Rightarrow> (connection \<times> connection list) option" where
  "queue_get q = (case q of [] \<Rightarrow> None | c # q' \<Rightarrow> Some (c, q'))"

datatype 'a outcome = Returns 'a | Raises | Blocks

text \<open>The loop of \<^verbatim>\<open>init_pool\<close>, over the outcomes of its connection attempts.\<close>

fun fill_pool :: "int \<Rightarrow> connection option list \<Rightarrow> connection list \<Rightarrow> connection list outcome" where
  "fill_pool maxsize [] q = Returns q"
| "fill_pool maxsize (None # rest) q = Raises"
| "fill_pool maxsize (Some c # rest) q =
     (case queue_put maxsize q c of
        None \<Rightarrow> Blocks
      | Some q' \<Rightarrow> fill_pool maxsize rest q')"

text \<open>
  The global \<^verbatim>\<open>_pool\<close> is \<open>None\<close> until \<^verbatim>\<open>init_pool\<close> has returned; \<open>connect i\<close>
  is the outcome of the \<open>i\<close>-th connection attempt.
\<close>

definition init_pool ::
  "int \<Rightarrow> int \<Rightarrow> (nat \<Rightarrow> connection option) \<Rightarrow> connection list option
     \<Rightarrow> connection list outcome" where
  "init_pool POOL_MIN POOL_MAX connect pool =
     (case pool of
        Some q \<Rightarrow> Returns q
      | None \<Rightarrow> fill_pool POOL_MAX (map connect [0..<nat POOL_MIN]) [])"

text \<open>
  \<^verbatim>\<open>get_conn\<close> up to its \<^verbatim>\<open>yield\<close>: the connection and the flag \<^verbatim>\<open>borrowed\<close>, or
  \<open>None\<close> when the pool stayed empty and the direct connection could not be opened
  either (\<open>fresh\<close> is the outcome of that attempt).
\<close>

definition acquire ::
  "connection list \<Rightarrow> connection option \<Rightarrow> (connection \<times> bool) option \<times> connection list" where
  "acquire q fresh =
     (case queue_get q of
        Some (c, q') \<Rightarrow> (Some (c, True), q')
      | None \<Rightarrow>
          (case fresh of
             None \<Rightarrow> (None, q)
           | Some c \<Rightarrow> (Some (c, False), q)))"

text \<open>
  The \<^verbatim>\<open>finally\<close> block of \<^verbatim>\<open>get_conn\<close>, with the connection as it is when the
  caller's block ends: the pool afterwards and the connections \<^verbatim>\<open>close()\<close> was called
  on.  An exception of the replacement's \<^verbatim>\<open>_create_connection()\<close> is caught and
  dropped by the enclosing \<^verbatim>\<open>except Exception: pass\<close>.  \<open>None\<close>: the \<^verbatim>\<open>put\<close> never
  returns.
\<close>

definition release ::
  "int \<Rightarrow> connection \<Rightarrow> bool \<Rightarrow> connection option \<Rightarrow> connection list
     \<Rightarrow> (connection list \<times> connection list) option" where
  "release maxsize conn borrowed fresh q =
     (if borrowed then
        (if is_open conn then map_option (\<lambda>q'. (q', [])) (queue_put maxsize q conn)
         else
           (case fresh of
              None \<Rightarrow> Some (q, [])
            | Some c \<Rightarrow> map_option (\<lambda>q'. (q', [])) (queue_put maxsize q c)))
      else Some (q, [conn]))"

text \<open>Any sequence of acquisitions and releases on the pool.\<close>

datatype pool_event = Acquire "connection option" | Release connection bool "connection option"

fun pool_event_step :: "int \<Rightarrow> pool_event \<Rightarrow> connection list \<Rightarrow> connection list option" where
  "pool_event_step maxsize (Acquire fresh) q = Some (snd (acquire q fresh))"
| "pool_event_step maxsize (Release conn borrowed fresh) q =
     map_option fst (release maxsize conn borrowed fresh q)"

fun pool_run :: "int \<Rightarrow> pool_event list \<Rightarrow> connection list \<Rightarrow> connection list option" where
  "pool_run maxsize [] q = Some q"
| "pool_run maxsize (e # es) q =
     (case pool_event_step maxsize e q of
        None \<Rightarrow> None
      | Some q' \<Rightarrow> pool_run maxsize es q')"

section \<open>Example states\<close>

definition day1 :: date where
  "day1 = \<lparr>year = 2024, month = 5, day = 17\<rparr>"

definition alice :: user where
  "alice = \<lparr>user_id = 1, username = ''alice'', email = ''alice@x.com'',
            api_key = ''key-of-alice'', tier = ''free''\<rparr>"

definition bob :: user where
  "bob = \<lparr>user_id = 2, username = ''bob'', email = ''bob@x.com'',
          api_key = ''key-of-bob'', tier = ''free''\<rparr>"

definition db0 :: database where
  "db0 = \<lparr>users = [alice, bob], usage_logs = [], presets = [],
          next_user_id = 3, next_log_id = 1, next_preset_id = 1\<rparr>"

text \<open>
  Alice has made one call today; she created three projects in April, two on the second of
  May and one today.
\<close>

definition db_used :: database where
  "db_used = db0\<lparr>usage_logs :=
       [\<lparr>log_id = 1, log_user_id = 1, log_date = \<lparr>year = 2024, month = 4, day = 30\<rparr>,
         calls_today = 4, projects_this_month = 3\<rparr>,
        \<lparr>log_id = 2, log_user_id = 1, log_date = \<lparr>year = 2024, month = 5, day = 2\<rparr>,
         calls_today = 2, projects_this_month = 2\<rparr>,
        \<lparr>log_id = 3, log_user_id = 1, log_date = day1,
         calls_today = 1, projects_this_month = 1\<rparr>],
     next_log_id := 4\<rparr>"

text \<open>Alice owns preset 1 (with \<^verbatim>\<open>git_init\<close> set), Bob owns preset 2.\<close>

definition db_presets :: database where
  "db_presets = db0\<lparr>presets :=
       [[(''id'', SqlInt 1), (''user_id'', SqlInt 1), (''name'', SqlStr ''p1''),
         (''template'', SqlStr ''flask''), (''git_init'', SqlInt 1), (''use_venv'', SqlInt 0),
         (''license_type'', SqlNull)],
        [(''id'', SqlInt 2), (''user_id'', SqlInt 2), (''name'', SqlStr ''p2''),
         (''template'', SqlStr ''fastapi''), (''git_init'', SqlInt 0), (''use_venv'', SqlInt 0),
         (''license_type'', SqlStr ''MIT'')]],
     next_preset_id := 3\<rparr>"

text \<open>A store that refuses every statement with a key that is not a column name.\<close>

definition store_refuses :: spliced_update where
  "store_refuses data pid uid rows = Inl SqlError"

definition conn1 :: connection where
  "conn1 = \<lparr>conn_id = 1, is_open = True\<rparr>"

definition conn2 :: connection where
  "conn2 = \<lparr>conn_id = 2, is_open = True\<rparr>"

section \<open>The daily quota check\<close>

lemma find_map_frame:
  assumes "\<And>x. P (f x) = P x"
  shows "find P (map f xs) = map_option f (find P xs)"
  using assms by (induction xs) auto

lemma select_usage_update_calls:
  "select_usage (update_calls db i) uid d =
     map_option (\<lambda>r. if log_id r = i then r\<lparr>calls_today := calls_today r + 1\<rparr> else r)
       (select_usage db uid d)"
  unfolding select_usage_def update_calls_def
  by (simp add: find_map_frame)

lemma select_usage_update_projects:
  "select_usage (update_projects db i) uid d =
     map_option (\<lambda>r. if log_id r = i then r\<lparr>projects_this_month := projects_this_month r + 1\<rparr> else r)
       (select_usage db uid d)"
  unfolding select_usage_def update_projects_def
  by (simp add: find_map_frame)

lemma find_append_None:
  "find P xs = None \<Longrightarrow> find P (xs @ ys) = find P ys"
  by (induction xs) (auto split: if_splits)

lemma select_usage_insert_fresh:
  "select_usage db uid d = None \<Longrightarrow>
   select_usage (insert_usage db uid d c p) uid d =
     Some \<lparr>log_id = next_log_id db, log_user_id = uid, log_date = d,
           calls_today = c, projects_this_month = p\<rparr>"
  unfolding select_usage_def insert_usage_def
  by (simp add: find_append_None)

lemma fst_daily_calls_Suc:
  "fst (daily_calls (Suc n) d uid L db) =
     fst (increment_call_and_check_limit d uid L db) #
     fst (daily_calls n d uid L (snd (increment_call_and_check_limit d uid L db)))"
  by (simp split: prod.splits)

lemma daily_calls_from_row:
  "select_usage db uid d = Some r \<Longrightarrow> calls_today r \<le> L \<Longrightarrow>
   fst (daily_calls n d uid L db) =
     replicate (min n (nat (L - calls_today r))) True @
     replicate (n - nat (L - calls_today r)) False"
proof (induction n arbitrary: db r)
  case 0
  then show ?case by simp
next
  case (Suc n)
  show ?case
  proof (cases "calls_today r + 1 > L")
    case True
    with Suc.prems have eq: "calls_today r = L" by simp
    from True Suc.prems have step: "increment_call_and_check_limit d uid L db = (False, db)"
      by (simp add: increment_call_and_check_limit_def)
    from Suc.IH[OF Suc.prems] eq step show ?thesis
      by (simp only: fst_daily_calls_Suc) simp
  next
    case False
    let ?db = "update_calls db (log_id r)"
    let ?r = "r\<lparr>calls_today := calls_today r + 1\<rparr>"
    from False Suc.prems have step: "increment_call_and_check_limit d uid L db = (True, ?db)"
      by (simp add: increment_call_and_check_limit_def)
    have sel: "select_usage ?db uid d = Some ?r"
      using Suc.prems(1) by (simp add: select_usage_update_calls)
    have le: "calls_today ?r \<le> L" using False by simp
    have n1: "nat (L - calls_today r) = Suc (nat (L - calls_today ?r))"
      using False by simp
    from Suc.IH[OF sel le] step show ?thesis
      by (simp only: fst_daily_calls_Suc n1) simp
  qed
qed

lemma daily_calls_fresh_day:
  assumes "select_usage db uid d = None" and "1 \<le> N"
  shows "fst (daily_calls (N + K) d uid (int N) db) = replicate N True @ replicate K False"
proof -
  from assms(2) obtain m where N: "N = Suc m" by (cases N) auto
  let ?db = "insert_usage db uid d 1 0"
  let ?r = "\<lparr>log_id = next_log_id db, log_user_id = uid, log_date = d,
             calls_today = 1, projects_this_month = 0\<rparr>"
  have step: "increment_call_and_check_limit d uid (int N) db = (True, ?db)"
    using assms(1) by (simp add: increment_call_and_check_limit_def)
  have sel: "select_usage ?db uid d = Some ?r"
    using assms(1) by (rule select_usage_insert_fresh)
  have "fst (daily_calls (m + K) d uid (int N) ?db) =
          replicate (min (m + K) (nat (int N - 1))) True @
          replicate (m + K - nat (int N - 1)) False"
    using daily_calls_from_row[OF sel, of "int N" "m + K"] N by simp
  then show ?thesis using step N
    by (simp only: fst_daily_calls_Suc add_Suc) simp
qed


text \<open>
  With a positive limit \<open>N\<close> and no row for the day yet, \<open>daily_calls_fresh_day\<close>
  above gives the sequence of the claim: the first \<open>N\<close> calls return true and every
  later one false.

  Claim C1 (exactly the first \<open>N\<close> sequential calls of a day succeed, for every limit
  \<open>N\<close>), evaluated at the limit 0: on a day that has no row yet the first call
  returns true, so one call succeeds where the claim allows none; only the second call is
  rejected.
\<close>

theorem daily_limit_zero_admits_first_call:
  "increment_call_and_check_limit day1 1 0 db0 =
     (True, insert_usage db0 1 day1 1 0) \<and>
   fst (daily_calls 2 day1 1 0 db0) = [True, False]"
  by (simp add: numeral_2_eq_2 increment_call_and_check_limit_def select_usage_def
      insert_usage_def db0_def day1_def)

text \<open>
  Claim C2: when the table holds no row for the user and today, the daily check returns
  true whatever the limit is (zero and negative limits included), and the store
  afterwards is the old one with one new row for (user, today) whose \<^verbatim>\<open>calls_today\<close>
  is 1 and whose \<^verbatim>\<open>projects_this_month\<close> is 0.
\<close>

theorem first_call_of_day_always_allowed:
  assumes "\<forall>r \<in> set (usage_logs db). \<not> (log_user_id r = uid \<and> log_date r = today)"
  shows "increment_call_and_check_limit today uid daily_limit db =
           (True,
            db\<lparr>usage_logs := usage_logs db @
                  [\<lparr>log_id = next_log_id db, log_user_id = uid, log_date = today,
                    calls_today = 1, projects_this_month = 0\<rparr>],
               next_log_id := next_log_id db + 1\<rparr>)"
proof -
  from assms have "select_usage db uid today = None"
    by (simp add: select_usage_def find_None_iff)
  then show ?thesis
    by (simp add: increment_call_and_check_limit_def insert_usage_def)
qed

text \<open>The first call of Alice on a day without rows, with the daily limit 0.\<close>

theorem first_call_of_day_always_allowed_witness:
  "usage_logs db0 = [] \<and>
   increment_call_and_check_limit day1 1 0 db0 =
     (True,
      db0\<lparr>usage_logs :=
            [\<lparr>log_id = 1, log_user_id = 1, log_date = day1,
              calls_today = 1, projects_this_month = 0\<rparr>],
          next_log_id := 2\<rparr>)"
  using first_call_of_day_always_allowed [of db0 1 day1 0]
  by (simp add: db0_def)

section \<open>Rejections and the monthly total\<close>

text \<open>
  Claim C3: a rejected quota check leaves the store as it was.  When the row fetched for
  (user, today) has \<^verbatim>\<open>calls_today + 1 > daily_limit\<close> the daily check returns false
  and the same store; when the month's total plus one exceeds the monthly limit the
  monthly check returns false and the same store; and whenever either check returns
  false, for whatever reason, the store it returns is the one it was given.
\<close>

theorem rejected_check_leaves_store_unchanged:
  "(select_usage db uid today = Some r \<longrightarrow> calls_today r + 1 > daily_limit \<longrightarrow>
      increment_call_and_check_limit today uid daily_limit db = (False, db)) \<and>
   (month_total today uid db + 1 > month_limit \<longrightarrow>
      increment_project_and_check_limit today uid month_limit db = (False, db)) \<and>
   (\<not> fst (increment_call_and_check_limit today uid daily_limit db) \<longrightarrow>
      snd (increment_call_and_check_limit today uid daily_limit db) = db) \<and>
   (\<not> fst (increment_project_and_check_limit today uid month_limit db) \<longrightarrow>
      snd (increment_project_and_check_limit today uid month_limit db) = db)"
  by (simp add: increment_call_and_check_limit_def increment_project_and_check_limit_def
      Let_def split: option.splits)

lemma select_usage_db_used:
  "select_usage db_used 1 day1 =
     Some \<lparr>log_id = 3, log_user_id = 1, log_date = day1,
           calls_today = 1, projects_this_month = 1\<rparr>"
  by (simp add: select_usage_def db_used_def db0_def day1_def)

lemma month_total_db_used: "month_total day1 1 db_used = 3"
  by (simp add: month_total_def select_sum_projects_def first_of_month_def date_le_def
      db_used_def db0_def day1_def)

text \<open>Alice at her daily limit of 1 and at her monthly limit of 3.\<close>

theorem rejected_check_leaves_store_unchanged_witness:
  "increment_call_and_check_limit day1 1 1 db_used = (False, db_used) \<and>
   increment_project_and_check_limit day1 1 3 db_used = (False, db_used)"
  using rejected_check_leaves_store_unchanged
    [of db_used 1 day1 "\<lparr>log_id = 3, log_user_id = 1, log_date = day1,
           calls_today = 1, projects_this_month = 1\<rparr>" 1 3]
  by (simp add: select_usage_db_used month_total_db_used)

lemma sum_list_filter_if:
  "sum_list (map f (filter P xs)) = (\<Sum>x\<leftarrow>xs. if P x then f x else (0::int))"
  by (induction xs) auto

lemma month_total_eq:
  "month_total today uid db =
     (\<Sum>r\<leftarrow>usage_logs db.
        if log_user_id r = uid \<and> date_le (first_of_month today) (log_date r)
        then projects_this_month r else 0)"
proof -
  let ?P = "\<lambda>r. log_user_id r = uid \<and> date_le (first_of_month today) (log_date r)"
  have "month_total today uid db =
          sum_list (map projects_this_month (filter ?P (usage_logs db)))"
    by (cases "filter ?P (usage_logs db)")
       (simp_all add: month_total_def select_sum_projects_def)
  then show ?thesis by (simp only: sum_list_filter_if)
qed

lemma on_or_after_first:
  "1 \<le> day d \<Longrightarrow> date_le (first_of_month today) d = (\<not> earlier_month d today)"
  by (auto simp: date_le_def first_of_month_def earlier_month_def)

text \<open>
  Claim C4: the total the monthly check compares with the limit is the sum of
  \<^verbatim>\<open>projects_this_month\<close> over exactly the rows of the user whose date is on or after
  the first day of today's month; the check returns true exactly when that total plus one
  is within the limit; a row of an earlier month adds nothing to the total, wherever it
  stands in the table; and a row of the user that is not of an earlier month (any day of
  the current month) adds its own counter.
\<close>

theorem monthly_total_sums_current_month:
  "month_total today uid db =
     (\<Sum>r\<leftarrow>usage_logs db.
        if log_user_id r = uid \<and> date_le (first_of_month today) (log_date r)
        then projects_this_month r else 0) \<and>
   fst (increment_project_and_check_limit today uid month_limit db) =
     (month_total today uid db + 1 \<le> month_limit) \<and>
   (earlier_month (log_date r) today \<longrightarrow>
      month_total today uid (db\<lparr>usage_logs := xs @ r # ys\<rparr>) =
      month_total today uid (db\<lparr>usage_logs := xs @ ys\<rparr>)) \<and>
   (log_user_id r = uid \<and> \<not> earlier_month (log_date r) today \<and> 1 \<le> day (log_date r) \<longrightarrow>
      month_total today uid (db\<lparr>usage_logs := xs @ r # ys\<rparr>) =
      projects_this_month r + month_total today uid (db\<lparr>usage_logs := xs @ ys\<rparr>))"
proof (intro conjI impI)
  show "month_total today uid db =
     (\<Sum>r\<leftarrow>usage_logs db.
        if log_user_id r = uid \<and> date_le (first_of_month today) (log_date r)
        then projects_this_month r else 0)"
    by (rule month_total_eq)
  show "fst (increment_project_and_check_limit today uid month_limit db) =
     (month_total today uid db + 1 \<le> month_limit)"
    by (auto simp: increment_project_and_check_limit_def Let_def split: option.splits)
next
  assume "earlier_month (log_date r) today"
  then have "\<not> date_le (first_of_month today) (log_date r)"
    by (auto simp: date_le_def first_of_month_def earlier_month_def)
  then show "month_total today uid (db\<lparr>usage_logs := xs @ r # ys\<rparr>) =
      month_total today uid (db\<lparr>usage_logs := xs @ ys\<rparr>)"
    by (simp add: month_total_eq)
next
  assume "log_user_id r = uid \<and> \<not> earlier_month (log_date r) today \<and> 1 \<le> day (log_date r)"
  then have "log_user_id r = uid" "date_le (first_of_month today) (log_date r)"
    by (simp_all add: on_or_after_first)
  then show "month_total today uid (db\<lparr>usage_logs := xs @ r # ys\<rparr>) =
      projects_this_month r + month_total today uid (db\<lparr>usage_logs := xs @ ys\<rparr>)"
    by (simp add: month_total_eq)
qed

text \<open>
  Alice's rows of the second and the seventeenth of May add up to 3; dropping her April
  row changes nothing.
\<close>

theorem monthly_total_sums_current_month_witness:
  "month_total day1 1 db_used = 2 + 1 \<and>
   month_total day1 1
     (db_used\<lparr>usage_logs := tl (usage_logs db_used)\<rparr>) = month_total day1 1 db_used"
  using monthly_total_sums_current_month
    [of day1 1 db_used 3 "hd (usage_logs db_used)" "[]" "tl (usage_logs db_used)"]
  by (simp add: db_used_def db0_def day1_def date_le_def first_of_month_def earlier_month_def)

section \<open>The request gate\<close>

lemma calls_on_after_admitted_call:
  assumes "increment_call_and_check_limit today uid daily_limit db = (True, db1)"
  shows "calls_on db1 uid today = calls_on db uid today + 1"
proof (cases "select_usage db uid today")
  case None
  with assms have "db1 = insert_usage db uid today 1 0"
    by (simp add: increment_call_and_check_limit_def)
  with None show ?thesis
    by (simp add: calls_on_def select_usage_insert_fresh)
next
  case (Some r)
  with assms have "db1 = update_calls db (log_id r)"
    by (simp add: increment_call_and_check_limit_def split: if_splits)
  with Some show ?thesis
    by (simp add: calls_on_def select_usage_update_calls)
qed

lemma require_api_key_admits:
  assumes "require_api_key L today x_api_key db = (Inr u, db1)"
  shows "increment_call_and_check_limit today (user_id u) L db = (True, db1)"
  using assms
  by (auto simp: require_api_key_def split: option.splits if_splits prod.splits)

lemma calls_on_monthly_check:
  "calls_on (snd (increment_project_and_check_limit today uid M db)) uid today =
   calls_on db uid today"
  by (cases "select_usage db uid today")
     (simp_all add: increment_project_and_check_limit_def Let_def calls_on_def
        select_usage_insert_fresh select_usage_update_projects)

lemma usage_logs_create_preset:
  "usage_logs (snd (create_preset uid nm tmpl git venv lic db)) = usage_logs db"
  by (simp add: create_preset_def Let_def split: option.splits)

lemma usage_logs_update_preset:
  "usage_logs (snd (update_preset spliced uid pid data db)) = usage_logs db"
  by (simp add: update_preset_def Let_def split: sum.splits)

lemma usage_logs_delete_preset:
  "usage_logs (snd (delete_preset uid pid db)) = usage_logs db"
  by (simp add: delete_preset_def)

lemma usage_logs_add_preset: "usage_logs (snd (add_preset p u db)) = usage_logs db"
  by (simp add: add_preset_def usage_logs_create_preset)

lemma usage_logs_put_preset:
  "usage_logs (snd (put_preset spliced pid p u db)) = usage_logs db"
  using usage_logs_update_preset [of spliced "user_id u" pid "PresetIn_dict p" db]
  by (auto simp: put_preset_def split: prod.splits sum.splits option.splits)

lemma usage_logs_remove_preset: "usage_logs (snd (remove_preset pid u db)) = usage_logs db"
  using usage_logs_delete_preset [of "user_id u" pid db]
  by (auto simp: remove_preset_def split: prod.splits)

lemma calls_on_create_project:
  "calls_on (snd (create_project M today req download u db)) (user_id u) today =
   calls_on db (user_id u) today"
  using calls_on_monthly_check [of today "user_id u" M db]
  by (auto simp: create_project_def Let_def split: prod.splits)

lemma delete_preset_not_found:
  assumes "get_preset uid pid db = None"
  shows "delete_preset uid pid db = (False, db)"
proof -
  from assms have none: "\<forall>r \<in> set (presets db). \<not> matches pid uid r"
    by (simp add: get_preset_def find_None_iff)
  then have "filter (matches pid uid) (presets db) = []"
    by (simp add: filter_empty_conv)
  moreover from none have "filter (\<lambda>r. \<not> matches pid uid r) (presets db) = presets db"
    by (simp add: filter_id_conv)
  ultimately show ?thesis by (simp add: delete_preset_def)
qed

text \<open>
  Claim C7: the gate decides in this order.  A missing (or empty) key header is rejected
  with 401; otherwise a key that no user has is rejected with 401; otherwise a daily
  check that returns false is rejected with 429, the store unchanged; otherwise the user
  found is returned, with the store the daily check left.  The endpoint's body runs
  exactly when the gate returned a user, and on that user.  A project creation with an
  allowed template then asks the monthly check: when it returns false the answer is 429
  and no project is made; when it returns true the project is made and answered.
\<close>

theorem request_gate_protocol:
  "(x_api_key = None \<or> x_api_key = Some [] \<longrightarrow>
      require_api_key DAILY_LIMIT today x_api_key db =
        (Inl (HTTPException 401 ''Missing X-API-Key header''), db)) \<and>
   (k \<noteq> [] \<and> get_user_by_api_key db k = None \<longrightarrow>
      require_api_key DAILY_LIMIT today (Some k) db =
        (Inl (HTTPException 401 ''Invalid API key''), db)) \<and>
   (k \<noteq> [] \<and> get_user_by_api_key db k = Some u \<and>
    \<not> fst (increment_call_and_check_limit today (user_id u) DAILY_LIMIT db) \<longrightarrow>
      require_api_key DAILY_LIMIT today (Some k) db =
        (Inl (HTTPException 429 ''Daily API call limit exceeded''), db)) \<and>
   (k \<noteq> [] \<and> get_user_by_api_key db k = Some u \<and>
    fst (increment_call_and_check_limit today (user_id u) DAILY_LIMIT db) \<longrightarrow>
      require_api_key DAILY_LIMIT today (Some k) db =
        (Inr u, snd (increment_call_and_check_limit today (user_id u) DAILY_LIMIT db))) \<and>
   (require_api_key DAILY_LIMIT today x_api_key db = (Inl e, db') \<longrightarrow>
      Depends_require_api_key DAILY_LIMIT today x_api_key endpoint db = (Inl e, db')) \<and>
   (require_api_key DAILY_LIMIT today x_api_key db = (Inr u, db') \<longrightarrow>
      Depends_require_api_key DAILY_LIMIT today x_api_key endpoint db = endpoint u db') \<and>
   (template req \<in> set ALLOWED_FREE_TEMPLATES \<and>
    \<not> fst (increment_project_and_check_limit today (user_id u) MONTH_LIMIT db) \<longrightarrow>
      create_project MONTH_LIMIT today req download u db =
        (Inl (HTTPException 429 ''Monthly project limit exceeded''), db)) \<and>
   (template req \<in> set ALLOWED_FREE_TEMPLATES \<and>
    fst (increment_project_and_check_limit today (user_id u) MONTH_LIMIT db) \<longrightarrow>
      create_project MONTH_LIMIT today req download u db =
        (Inr (if download
              then ZipFile (name req)
                     (create_zip_archive (project_files (template req) (name req)))
              else Manifest (name req) (project_files (template req) (name req))),
         snd (increment_project_and_check_limit today (user_id u) MONTH_LIMIT db)))"
proof -
  have daily: "\<not> fst (increment_call_and_check_limit today uid L db) \<Longrightarrow>
      increment_call_and_check_limit today uid L db = (False, db)" for uid L
    by (auto simp: increment_call_and_check_limit_def split: option.splits if_splits)
  have monthly: "\<not> fst (increment_project_and_check_limit today uid L db) \<Longrightarrow>
      increment_project_and_check_limit today uid L db = (False, db)" for uid L
    by (auto simp: increment_project_and_check_limit_def Let_def split: option.splits if_splits)
  have g1: "x_api_key = None \<or> x_api_key = Some [] \<longrightarrow>
      require_api_key DAILY_LIMIT today x_api_key db =
        (Inl (HTTPException 401 ''Missing X-API-Key header''), db)"
    by (auto simp: require_api_key_def)
  have g2: "k \<noteq> [] \<and> get_user_by_api_key db k = None \<longrightarrow>
      require_api_key DAILY_LIMIT today (Some k) db =
        (Inl (HTTPException 401 ''Invalid API key''), db)"
    by (simp add: require_api_key_def)
  have g3: "k \<noteq> [] \<and> get_user_by_api_key db k = Some u \<and>
    \<not> fst (increment_call_and_check_limit today (user_id u) DAILY_LIMIT db) \<longrightarrow>
      require_api_key DAILY_LIMIT today (Some k) db =
        (Inl (HTTPException 429 ''Daily API call limit exceeded''), db)"
    using daily [of "user_id u" DAILY_LIMIT] by (auto simp: require_api_key_def)
  have g4: "k \<noteq> [] \<and> get_user_by_api_key db k = Some u \<and>
    fst (increment_call_and_check_limit today (user_id u) DAILY_LIMIT db) \<longrightarrow>
      require_api_key DAILY_LIMIT today (Some k) db =
        (Inr u, snd (increment_call_and_check_limit today (user_id u) DAILY_LIMIT db))"
    by (auto simp: require_api_key_def split: prod.splits)
  have g5: "require_api_key DAILY_LIMIT today x_api_key db = (Inl e, db') \<longrightarrow>
      Depends_require_api_key DAILY_LIMIT today x_api_key endpoint db = (Inl e, db')"
    by (simp add: Depends_require_api_key_def)
  have g6: "require_api_key DAILY_LIMIT today x_api_key db = (Inr u, db') \<longrightarrow>
      Depends_require_api_key DAILY_LIMIT today x_api_key endpoint db = endpoint u db'"
    by (simp add: Depends_require_api_key_def)
  have g7: "template req \<in> set ALLOWED_FREE_TEMPLATES \<and>
    \<not> fst (increment_project_and_check_limit today (user_id u) MONTH_LIMIT db) \<longrightarrow>
      create_project MONTH_LIMIT today req download u db =
        (Inl (HTTPException 429 ''Monthly project limit exceeded''), db)"
    using monthly [of "user_id u" MONTH_LIMIT] by (auto simp: create_project_def)
  have g8: "template req \<in> set ALLOWED_FREE_TEMPLATES \<and>
    fst (increment_project_and_check_limit today (user_id u) MONTH_LIMIT db) \<longrightarrow>
      create_project MONTH_LIMIT today req download u db =
        (Inr (if download
              then ZipFile (name req)
                     (create_zip_archive (project_files (template req) (name req)))
              else Manifest (name req) (project_files (template req) (name req))),
         snd (increment_project_and_check_limit today (user_id u) MONTH_LIMIT db))"
    by (auto simp: create_project_def Let_def split: prod.splits)
  from g1 g2 g3 g4 g5 g6 g7 g8 show ?thesis by blast
qed

text \<open>
  Claim C10, amended to the requests the gate lets through (an authenticated request
  that the daily check rejects is answered 429 and uses nothing).  Such a request has
  used one unit of the day's call quota
  before the endpoint's body runs, and the body never gives it back.  When the gate
  returns a user, the day's counter of that user is one higher than before; the preset
  endpoints leave the table of usage rows as the gate left it, and a project creation
  leaves the day's call counter as the gate left it, whatever they answer.  In
  particular a preset with a template that is not allowed is answered 403, and the removal
  of a preset the user does not have is answered 404, each with the counter already
  incremented.
\<close>

theorem gate_unit_survives_endpoint_failure:
  assumes "require_api_key DAILY_LIMIT today x_api_key db = (Inr u, db1)"
  shows "calls_on db1 (user_id u) today = calls_on db (user_id u) today + 1 \<and>
    usage_logs (snd (Depends_require_api_key DAILY_LIMIT today x_api_key (add_preset p) db)) =
      usage_logs db1 \<and>
    usage_logs (snd (Depends_require_api_key DAILY_LIMIT today x_api_key get_presets db)) =
      usage_logs db1 \<and>
    usage_logs (snd (Depends_require_api_key DAILY_LIMIT today x_api_key
                       (put_preset spliced pid p) db)) =
      usage_logs db1 \<and>
    usage_logs (snd (Depends_require_api_key DAILY_LIMIT today x_api_key (remove_preset pid) db)) =
      usage_logs db1 \<and>
    calls_on (snd (Depends_require_api_key DAILY_LIMIT today x_api_key
                     (create_project MONTH_LIMIT today p download) db)) (user_id u) today =
      calls_on db (user_id u) today + 1 \<and>
    (template p \<notin> set ALLOWED_FREE_TEMPLATES \<longrightarrow>
       Depends_require_api_key DAILY_LIMIT today x_api_key (add_preset p) db =
         (Inl (HTTPException 403 ''Template not allowed for free tier''), db1)) \<and>
    (get_preset (user_id u) pid db1 = None \<longrightarrow>
       Depends_require_api_key DAILY_LIMIT today x_api_key (remove_preset pid) db =
         (Inl (HTTPException 404 ''Preset not found''), db1))"
proof -
  have dep: "Depends_require_api_key DAILY_LIMIT today x_api_key endpoint db = endpoint u db1"
    for endpoint :: "user \<Rightarrow> database \<Rightarrow> (failure + 'a) \<times> database"
    using assms by (simp add: Depends_require_api_key_def)
  have unit: "calls_on db1 (user_id u) today = calls_on db (user_id u) today + 1"
    using calls_on_after_admitted_call [OF require_api_key_admits [OF assms]] .
  have c403: "template p \<notin> set ALLOWED_FREE_TEMPLATES \<longrightarrow>
       add_preset p u db1 = (Inl (HTTPException 403 ''Template not allowed for free tier''), db1)"
    by (simp add: add_preset_def)
  have c404: "get_preset (user_id u) pid db1 = None \<longrightarrow>
       remove_preset pid u db1 = (Inl (HTTPException 404 ''Preset not found''), db1)"
    by (simp add: remove_preset_def delete_preset_not_found)
  show ?thesis
    using unit c403 c404
    by (simp add: dep usage_logs_add_preset usage_logs_put_preset usage_logs_remove_preset
        calls_on_create_project get_presets_def)
qed


lemma alice_by_key: "get_user_by_api_key db_used ''key-of-alice'' = Some alice"
  by (simp add: get_user_by_api_key_def db_used_def db0_def alice_def)

lemma nobody_by_key: "get_user_by_api_key db_used ''no-such-key'' = None"
  by (simp add: get_user_by_api_key_def db_used_def db0_def alice_def bob_def)

lemma alice_daily_check:
  "increment_call_and_check_limit day1 (user_id alice) L db_used =
     (if 2 > L then (False, db_used) else (True, update_calls db_used 3))"
  by (simp add: increment_call_and_check_limit_def select_usage_db_used alice_def)

lemma alice_monthly_check:
  "increment_project_and_check_limit day1 (user_id alice) 3 db_used = (False, db_used)"
  by (simp add: increment_project_and_check_limit_def month_total_db_used alice_def)

lemma gate_admits_alice:
  "require_api_key 10 day1 (Some ''key-of-alice'') db_used = (Inr alice, update_calls db_used 3)"
  by (simp add: require_api_key_def alice_by_key alice_daily_check)

text \<open>
  The four outcomes of the gate on the example store, a project creation stopped by the
  gate, and one stopped by the monthly check.
\<close>

theorem request_gate_protocol_witness:
  "require_api_key 10 day1 None db_used =
     (Inl (HTTPException 401 ''Missing X-API-Key header''), db_used) \<and>
   require_api_key 10 day1 (Some ''no-such-key'') db_used =
     (Inl (HTTPException 401 ''Invalid API key''), db_used) \<and>
   require_api_key 1 day1 (Some ''key-of-alice'') db_used =
     (Inl (HTTPException 429 ''Daily API call limit exceeded''), db_used) \<and>
   require_api_key 10 day1 (Some ''key-of-alice'') db_used =
     (Inr alice, update_calls db_used 3) \<and>
   Depends_require_api_key 1 day1 (Some ''key-of-alice'')
     (create_project 3 day1 (PresetIn_defaults ''proj'' ''flask'') False) db_used =
     (Inl (HTTPException 429 ''Daily API call limit exceeded''), db_used) \<and>
   create_project 3 day1 (PresetIn_defaults ''proj'' ''flask'') False alice db_used =
     (Inl (HTTPException 429 ''Monthly project limit exceeded''), db_used)"
proof -
  let ?req = "PresetIn_defaults ''proj'' ''flask''"
  have allowed: "template ?req \<in> set ALLOWED_FREE_TEMPLATES"
    by (simp add: PresetIn_defaults_def ALLOWED_FREE_TEMPLATES_def)
  have c1: "require_api_key 10 day1 None db_used =
     (Inl (HTTPException 401 ''Missing X-API-Key header''), db_used)"
    using request_gate_protocol [where x_api_key = None and DAILY_LIMIT = 10
        and today = day1 and db = db_used, THEN conjunct1]
    by simp
  have c2: "require_api_key 10 day1 (Some ''no-such-key'') db_used =
     (Inl (HTTPException 401 ''Invalid API key''), db_used)"
    using request_gate_protocol [where k = "''no-such-key''" and DAILY_LIMIT = 10
        and today = day1 and db = db_used, THEN conjunct2, THEN conjunct1]
    by (simp add: nobody_by_key)
  have c3: "require_api_key 1 day1 (Some ''key-of-alice'') db_used =
     (Inl (HTTPException 429 ''Daily API call limit exceeded''), db_used)"
    using request_gate_protocol [where k = "''key-of-alice''" and u = alice
        and DAILY_LIMIT = 1 and today = day1 and db = db_used,
        THEN conjunct2, THEN conjunct2, THEN conjunct1]
    by (simp add: alice_by_key alice_daily_check)
  have c4: "require_api_key 10 day1 (Some ''key-of-alice'') db_used =
     (Inr alice, update_calls db_used 3)"
    using request_gate_protocol [where k = "''key-of-alice''" and u = alice
        and DAILY_LIMIT = 10 and today = day1 and db = db_used,
        THEN conjunct2, THEN conjunct2, THEN conjunct2, THEN conjunct1]
    by (simp add: alice_by_key alice_daily_check)
  have c5: "Depends_require_api_key 1 day1 (Some ''key-of-alice'')
     (create_project 3 day1 ?req False) db_used =
     (Inl (HTTPException 429 ''Daily API call limit exceeded''), db_used)"
    using c3 request_gate_protocol [where x_api_key = "Some ''key-of-alice''"
        and DAILY_LIMIT = 1 and today = day1 and db = db_used
        and e = "HTTPException 429 ''Daily API call limit exceeded''" and db' = db_used
        and endpoint = "create_project 3 day1 ?req False",
        THEN conjunct2, THEN conjunct2, THEN conjunct2, THEN conjunct2, THEN conjunct1]
    by simp
  have c6: "create_project 3 day1 ?req False alice db_used =
     (Inl (HTTPException 429 ''Monthly project limit exceeded''), db_used)"
    using allowed request_gate_protocol [where req = ?req and u = alice and MONTH_LIMIT = 3
        and today = day1 and db = db_used and download = False,
        THEN conjunct2, THEN conjunct2, THEN conjunct2, THEN conjunct2, THEN conjunct2,
        THEN conjunct2, THEN conjunct1]
    by (simp add: alice_monthly_check)
  from c1 c2 c3 c4 c5 c6 show ?thesis by simp
qed

lemma calls_on_db_used: "calls_on db_used 1 day1 = 1"
  by (simp add: calls_on_def select_usage_db_used)

lemma calls_on_db_used_after: "calls_on (update_calls db_used 3) 1 day1 = 2"
  by (simp add: calls_on_def select_usage_update_calls select_usage_db_used)

lemma no_preset_9: "get_preset (user_id alice) 9 (update_calls db_used 3) = None"
  by (simp add: get_preset_def update_calls_def db_used_def db0_def)

text \<open>
  Alice, with one call made today, is refused a preset for a template that is not
  allowed and the removal of a preset she does not have: her counter is 2 after each.
\<close>

theorem gate_unit_survives_endpoint_failure_witness:
  "require_api_key 10 day1 (Some ''key-of-alice'') db_used = (Inr alice, update_calls db_used 3) \<and>
   calls_on db_used 1 day1 = 1 \<and>
   calls_on (update_calls db_used 3) 1 day1 = 2 \<and>
   Depends_require_api_key 10 day1 (Some ''key-of-alice'')
     (add_preset (PresetIn_defaults ''p9'' ''django'')) db_used =
     (Inl (HTTPException 403 ''Template not allowed for free tier''), update_calls db_used 3) \<and>
   Depends_require_api_key 10 day1 (Some ''key-of-alice'') (remove_preset 9) db_used =
     (Inl (HTTPException 404 ''Preset not found''), update_calls db_used 3)"
proof -
  have bad: "template (PresetIn_defaults ''p9'' ''django'') \<notin> set ALLOWED_FREE_TEMPLATES"
    by (simp add: PresetIn_defaults_def ALLOWED_FREE_TEMPLATES_def)
  from gate_unit_survives_endpoint_failure [OF gate_admits_alice,
      where p = "PresetIn_defaults ''p9'' ''django''" and pid = 9]
  have "Depends_require_api_key 10 day1 (Some ''key-of-alice'')
          (add_preset (PresetIn_defaults ''p9'' ''django'')) db_used =
          (Inl (HTTPException 403 ''Template not allowed for free tier''), update_calls db_used 3)"
    and "Depends_require_api_key 10 day1 (Some ''key-of-alice'') (remove_preset 9) db_used =
          (Inl (HTTPException 404 ''Preset not found''), update_calls db_used 3)"
    using bad no_preset_9 by blast+
  then show ?thesis
    by (simp add: gate_admits_alice calls_on_db_used calls_on_db_used_after)
qed

text \<open>
  Claim C10 as stated, for every authenticated request, fails at a request that is
  authenticated and stopped by the daily check.  Alice, whose key is known, has made one
  call today and the daily limit is 1: her request for a new preset is answered 429, the
  store is unchanged and her counter is still 1.
\<close>

theorem authenticated_request_at_limit_counterexample:
  "get_user_by_api_key db_used ''key-of-alice'' = Some alice \<and>
   Depends_require_api_key 1 day1 (Some ''key-of-alice'')
     (add_preset (PresetIn_defaults ''p9'' ''flask'')) db_used =
     (Inl (HTTPException 429 ''Daily API call limit exceeded''), db_used) \<and>
   calls_on db_used (user_id alice) day1 = 1 \<and>
   calls_on (snd (Depends_require_api_key 1 day1 (Some ''key-of-alice'')
                    (add_preset (PresetIn_defaults ''p9'' ''flask'')) db_used))
     (user_id alice) day1 = 1"
proof -
  have gate: "require_api_key 1 day1 (Some ''key-of-alice'') db_used =
      (Inl (HTTPException 429 ''Daily API call limit exceeded''), db_used)"
    by (simp add: require_api_key_def alice_by_key alice_daily_check)
  have count: "calls_on db_used (user_id alice) day1 = 1"
    by (simp add: calls_on_db_used alice_def)
  from gate count show ?thesis
    by (simp add: Depends_require_api_key_def alice_by_key)
qed

section \<open>Presets\<close>

lemma map_of_assign_other:
  "k \<notin> fst ` set data \<Longrightarrow> map_of (assign data r) k = map_of r k"
  unfolding assign_def
  by (induction data arbitrary: r) (auto simp: update_conv')

lemma map_of_assign_supplied:
  "distinct (map fst data) \<Longrightarrow> (k, v) \<in> set data \<Longrightarrow> map_of (assign data r) k = Some v"
proof (induction data arbitrary: r)
  case Nil
  then show ?case by simp
next
  case (Cons kv data)
  obtain k' v' where kv: "kv = (k', v')" by (cases kv)
  have step: "assign (kv # data) r = assign data (AList.update k' v' r)"
    by (simp add: assign_def kv)
  show ?case
  proof (cases "(k, v) \<in> set data")
    case True
    with Cons show ?thesis by (simp add: step)
  next
    case False
    with Cons.prems kv have eq: "k = k'" "v = v'" and notin: "k \<notin> fst ` set data"
      by auto
    then show ?thesis
      by (simp add: step map_of_assign_other update_conv')
  qed
qed

lemma matches_assign:
  assumes "set (map fst data) \<subseteq> set preset_fields"
  shows "matches pid uid (assign data r) = matches pid uid r"
proof -
  from assms have "''id'' \<notin> fst ` set data" "''user_id'' \<notin> fst ` set data"
    by (auto simp: preset_fields_def)
  then show ?thesis
    by (simp add: matches_def owned_by_def map_of_assign_other)
qed

lemma fields_are_columns:
  assumes "set (map fst data) \<subseteq> set preset_fields"
  shows "list_all (\<lambda>k. k \<in> set preset_columns) (map fst data)"
proof -
  have "set preset_fields \<subseteq> set preset_columns"
    by (simp add: preset_fields_def preset_columns_def)
  with assms show ?thesis by (auto simp: list_all_iff)
qed

lemma columns_list_all:
  "set (map fst data) \<subseteq> set preset_columns \<Longrightarrow>
   list_all (\<lambda>k. k \<in> set preset_columns) (map fst data)"
  by (auto simp: list_all_iff)

lemma update_preset_columns:
  assumes "list_all (\<lambda>k. k \<in> set preset_columns) (map fst data)"
  shows "update_preset spliced uid pid data db =
     (if data = [] then (Inl SqlError, db)
      else (Inr (find (matches pid uid)
                   (map (\<lambda>r. if matches pid uid r then assign data r else r) (presets db))),
            db\<lparr>presets :=
                 map (\<lambda>r. if matches pid uid r then assign data r else r) (presets db)\<rparr>))"
  using assms by (simp add: update_preset_def Let_def get_preset_def)

lemma update_preset_rows:
  assumes "list_all (\<lambda>k. k \<in> set preset_columns) (map fst data)"
  shows "presets (snd (update_preset spliced uid pid data db)) =
     (if data = [] then presets db
      else map (\<lambda>r. if matches pid uid r then assign data r else r) (presets db))"
  by (simp add: update_preset_columns [OF assms])

lemma map_unmatched_id:
  "find P xs = None \<Longrightarrow> map (\<lambda>r. if P r then f r else r) xs = xs"
  by (induction xs) (auto split: if_splits)

lemma update_preset_found:
  assumes "data \<noteq> []" and "set (map fst data) \<subseteq> set preset_fields"
    and "get_preset uid pid db = Some r"
  shows "fst (update_preset spliced uid pid data db) = Inr (Some (assign data r))"
    and "get_preset uid pid (snd (update_preset spliced uid pid data db)) =
           Some (assign data r)"
proof -
  let ?f = "\<lambda>r. if matches pid uid r then assign data r else r"
  have frame: "matches pid uid (?f x) = matches pid uid x" for x
    by (simp add: matches_assign [OF assms(2)])
  have "find (matches pid uid) (map ?f (presets db)) =
          map_option ?f (find (matches pid uid) (presets db))"
    by (rule find_map_frame) (rule frame)
  moreover from assms(3) have "matches pid uid r"
    by (auto simp: get_preset_def find_Some_iff)
  ultimately have "find (matches pid uid) (map ?f (presets db)) = Some (assign data r)"
    using assms(3) by (simp add: get_preset_def)
  then show "fst (update_preset spliced uid pid data db) = Inr (Some (assign data r))"
    and "get_preset uid pid (snd (update_preset spliced uid pid data db)) =
           Some (assign data r)"
    using assms(1)
    by (simp_all add: update_preset_columns [OF fields_are_columns [OF assms(2)]]
        get_preset_def)
qed

lemma update_preset_not_found:
  assumes "data \<noteq> []" and "set (map fst data) \<subseteq> set preset_fields"
    and "get_preset uid pid db = None"
  shows "update_preset spliced uid pid data db = (Inr None, db)"
proof -
  from assms(3) have "map (\<lambda>r. if matches pid uid r then assign data r else r) (presets db) =
      presets db"
    by (simp add: get_preset_def map_unmatched_id)
  then show ?thesis
    using assms(1,3)
    by (simp add: update_preset_columns [OF fields_are_columns [OF assms(2)]] get_preset_def)
qed

text \<open>
  The endpoint passes the five fields of \<^verbatim>\<open>PresetIn\<close>, every one of them, whatever the
  request body gave.
\<close>

lemma PresetIn_dict_keys:
  "PresetIn_dict payload \<noteq> []"
  "distinct (map fst (PresetIn_dict payload))"
  "set (map fst (PresetIn_dict payload)) \<subseteq> set preset_fields"
  by (simp_all add: PresetIn_dict_def preset_fields_def)

lemma put_preset_found:
  assumes "template payload \<in> set ALLOWED_FREE_TEMPLATES"
    and "get_preset (user_id u) pid db = Some r"
  shows "fst (put_preset spliced pid payload u db) = Inr (assign (PresetIn_dict payload) r)"
  using assms(1)
    update_preset_found(1) [OF PresetIn_dict_keys(1) [of payload]
      PresetIn_dict_keys(3) [of payload] assms(2), where spliced = spliced]
  by (auto simp: put_preset_def split: prod.splits sum.splits option.splits)

lemma put_preset_not_found:
  assumes "template payload \<in> set ALLOWED_FREE_TEMPLATES"
    and "get_preset (user_id u) pid db = None"
  shows "put_preset spliced pid payload u db = (Inl (HTTPException 404 ''Preset not found''), db)"
  using assms(1)
    update_preset_not_found [OF PresetIn_dict_keys(1) [of payload]
      PresetIn_dict_keys(3) [of payload] assms(2), where spliced = spliced]
  by (simp add: put_preset_def)

lemma put_preset_row:
  "map_of (assign (PresetIn_dict payload) r) ''name'' = Some (SqlStr (name payload))"
  "map_of (assign (PresetIn_dict payload) r) ''template'' = Some (SqlStr (template payload))"
  "map_of (assign (PresetIn_dict payload) r) ''git_init'' = Some (sql_of_flag (git_init payload))"
  "map_of (assign (PresetIn_dict payload) r) ''use_venv'' = Some (sql_of_flag (use_venv payload))"
  "map_of (assign (PresetIn_dict payload) r) ''license_type'' =
     Some (sql_of_str (license_type payload))"
  "map_of (assign (PresetIn_dict payload) r) ''id'' = map_of r ''id''"
  "map_of (assign (PresetIn_dict payload) r) ''user_id'' = map_of r ''user_id''"
  by (simp_all add: assign_def PresetIn_dict_def update_conv')

text \<open>
  Claim C8, amended.  For a field-set that is not empty and whose keys are fields of
  \<^verbatim>\<open>PresetIn\<close> (each at most once, as in a dictionary): when no preset has the given id
  and owner, \<^verbatim>\<open>update_preset\<close> returns nothing (not found) and the store is unchanged;
  when one has, it returns the row as it is after the update, which is the row read back
  from the new store; in that row every field of the field-set holds the given value and
  every other column holds its prior value; the rows that do not match the id and the
  owner are not changed.  The endpoint \<^verbatim>\<open>put_preset\<close>, for an allowed template, gives
  \<^verbatim>\<open>update_preset\<close> all five fields of its \<^verbatim>\<open>PresetIn\<close>: it answers 404 with the store
  unchanged when no preset has the id and the owner, and otherwise answers the row in
  which each of the five fields holds the value of the \<^verbatim>\<open>PresetIn\<close> (its default where
  the request body left the field out) and only \<^verbatim>\<open>id\<close> and \<^verbatim>\<open>user_id\<close> keep their
  prior values.
\<close>

theorem update_preset_changes_supplied_fields:
  assumes "data \<noteq> []" and "distinct (map fst data)"
    and "set (map fst data) \<subseteq> set preset_fields"
  shows
   "(get_preset uid pid db = None \<longrightarrow>
       update_preset spliced uid pid data db = (Inr None, db)) \<and>
    (get_preset uid pid db = Some r \<longrightarrow>
       fst (update_preset spliced uid pid data db) = Inr (Some (assign data r)) \<and>
       get_preset uid pid (snd (update_preset spliced uid pid data db)) =
         Some (assign data r) \<and>
       (\<forall>k v. (k, v) \<in> set data \<longrightarrow> map_of (assign data r) k = Some v) \<and>
       (\<forall>k. k \<notin> fst ` set data \<longrightarrow> map_of (assign data r) k = map_of r k)) \<and>
    presets (snd (update_preset spliced uid pid data db)) =
      map (\<lambda>x. if matches pid uid x then assign data x else x) (presets db) \<and>
    (template payload \<in> set ALLOWED_FREE_TEMPLATES \<and>
     get_preset (user_id u) pid db = None \<longrightarrow>
       put_preset spliced pid payload u db =
         (Inl (HTTPException 404 ''Preset not found''), db)) \<and>
    (template payload \<in> set ALLOWED_FREE_TEMPLATES \<and>
     get_preset (user_id u) pid db = Some r \<longrightarrow>
       fst (put_preset spliced pid payload u db) = Inr (assign (PresetIn_dict payload) r) \<and>
       map_of (assign (PresetIn_dict payload) r) ''name'' = Some (SqlStr (name payload)) \<and>
       map_of (assign (PresetIn_dict payload) r) ''template'' =
         Some (SqlStr (template payload)) \<and>
       map_of (assign (PresetIn_dict payload) r) ''git_init'' =
         Some (sql_of_flag (git_init payload)) \<and>
       map_of (assign (PresetIn_dict payload) r) ''use_venv'' =
         Some (sql_of_flag (use_venv payload)) \<and>
       map_of (assign (PresetIn_dict payload) r) ''license_type'' =
         Some (sql_of_str (license_type payload)) \<and>
       map_of (assign (PresetIn_dict payload) r) ''id'' = map_of r ''id'' \<and>
       map_of (assign (PresetIn_dict payload) r) ''user_id'' = map_of r ''user_id'')"
proof -
  have c1: "get_preset uid pid db = None \<longrightarrow>
       update_preset spliced uid pid data db = (Inr None, db)"
    using assms by (simp add: update_preset_not_found)
  have c2: "get_preset uid pid db = Some r \<longrightarrow>
       fst (update_preset spliced uid pid data db) = Inr (Some (assign data r)) \<and>
       get_preset uid pid (snd (update_preset spliced uid pid data db)) =
         Some (assign data r)"
    using assms by (simp add: update_preset_found)
  have c3: "\<forall>k v. (k, v) \<in> set data \<longrightarrow> map_of (assign data r) k = Some v"
    using assms(2) by (simp add: map_of_assign_supplied)
  have c4: "\<forall>k. k \<notin> fst ` set data \<longrightarrow> map_of (assign data r) k = map_of r k"
    by (simp add: map_of_assign_other)
  have c5: "presets (snd (update_preset spliced uid pid data db)) =
      map (\<lambda>x. if matches pid uid x then assign data x else x) (presets db)"
    using assms(1) by (simp add: update_preset_rows [OF fields_are_columns [OF assms(3)]])
  have c6: "template payload \<in> set ALLOWED_FREE_TEMPLATES \<and>
     get_preset (user_id u) pid db = None \<longrightarrow>
       put_preset spliced pid payload u db =
         (Inl (HTTPException 404 ''Preset not found''), db)"
    by (simp add: put_preset_not_found)
  have c7: "template payload \<in> set ALLOWED_FREE_TEMPLATES \<and>
     get_preset (user_id u) pid db = Some r \<longrightarrow>
       fst (put_preset spliced pid payload u db) = Inr (assign (PresetIn_dict payload) r)"
    by (simp add: put_preset_found)
  from c1 c2 c3 c4 c5 c6 c7 show ?thesis
    by (simp only: put_preset_row) blast
qed

lemma alice_preset_1:
  "get_preset 1 1 db_presets =
     Some [(''id'', SqlInt 1), (''user_id'', SqlInt 1), (''name'', SqlStr ''p1''),
           (''template'', SqlStr ''flask''), (''git_init'', SqlInt 1), (''use_venv'', SqlInt 0),
           (''license_type'', SqlNull)]"
  by (simp add: get_preset_def matches_def owned_by_def db_presets_def db0_def)

lemma alice_preset_2: "get_preset 1 2 db_presets = None"
  by (simp add: get_preset_def matches_def owned_by_def db_presets_def db0_def)

text \<open>
  Alice clears \<^verbatim>\<open>git_init\<close> of her preset 1 and nothing else changes; the same update
  aimed at Bob's preset 2 finds nothing and changes nothing.
\<close>

theorem update_preset_changes_supplied_fields_witness:
  "fst (update_preset store_refuses 1 1 [(''git_init'', SqlInt 0)] db_presets) =
     Inr (Some [(''id'', SqlInt 1), (''user_id'', SqlInt 1), (''name'', SqlStr ''p1''),
                (''template'', SqlStr ''flask''), (''git_init'', SqlInt 0),
                (''use_venv'', SqlInt 0), (''license_type'', SqlNull)]) \<and>
   update_preset store_refuses 1 2 [(''git_init'', SqlInt 0)] db_presets =
     (Inr None, db_presets)"
proof -
  have ok: "[(''git_init'', SqlInt 0)] \<noteq> []" "distinct (map fst [(''git_init'', SqlInt 0)])"
    "set (map fst [(''git_init'', SqlInt 0)]) \<subseteq> set preset_fields"
    by (simp_all add: preset_fields_def)
  from update_preset_changes_supplied_fields [OF ok, where uid = 1 and pid = 1
      and db = db_presets and spliced = store_refuses]
    alice_preset_1
  have "fst (update_preset store_refuses 1 1 [(''git_init'', SqlInt 0)] db_presets) =
     Inr (Some (assign [(''git_init'', SqlInt 0)]
       [(''id'', SqlInt 1), (''user_id'', SqlInt 1), (''name'', SqlStr ''p1''),
        (''template'', SqlStr ''flask''), (''git_init'', SqlInt 1), (''use_venv'', SqlInt 0),
        (''license_type'', SqlNull)]))"
    by simp
  moreover
  from update_preset_changes_supplied_fields [OF ok, where uid = 1 and pid = 2
      and db = db_presets and spliced = store_refuses]
    alice_preset_2
  have "update_preset store_refuses 1 2 [(''git_init'', SqlInt 0)] db_presets =
      (Inr None, db_presets)"
    by simp
  ultimately show ?thesis by (simp add: assign_def)
qed

text \<open>
  Claim C8 as stated (the fields a preset update leaves out keep their prior values)
  fails on the endpoint.  Alice's preset 1 has \<^verbatim>\<open>git_init\<close> set.  She sends an update
  whose body gives \<^verbatim>\<open>name\<close> and \<^verbatim>\<open>template\<close> only: the endpoint passes the default
  of \<^verbatim>\<open>git_init\<close> along with them, and the row answered, which is the row stored, has
  \<^verbatim>\<open>git_init\<close> cleared.
\<close>

theorem put_preset_partial_body_counterexample:
  "get_preset 1 1 db_presets =
     Some [(''id'', SqlInt 1), (''user_id'', SqlInt 1), (''name'', SqlStr ''p1''),
           (''template'', SqlStr ''flask''), (''git_init'', SqlInt 1), (''use_venv'', SqlInt 0),
           (''license_type'', SqlNull)] \<and>
   fst (put_preset store_refuses 1 (PresetIn_defaults ''p1'' ''flask'') alice db_presets) =
     Inr [(''id'', SqlInt 1), (''user_id'', SqlInt 1), (''name'', SqlStr ''p1''),
          (''template'', SqlStr ''flask''), (''git_init'', SqlInt 0), (''use_venv'', SqlInt 0),
          (''license_type'', SqlNull)] \<and>
   get_preset 1 1
     (snd (put_preset store_refuses 1 (PresetIn_defaults ''p1'' ''flask'') alice db_presets)) =
     Some [(''id'', SqlInt 1), (''user_id'', SqlInt 1), (''name'', SqlStr ''p1''),
           (''template'', SqlStr ''flask''), (''git_init'', SqlInt 0), (''use_venv'', SqlInt 0),
           (''license_type'', SqlNull)]"
  by (simp add: put_preset_def update_preset_def get_preset_def matches_def
      owned_by_def assign_def preset_columns_def PresetIn_dict_def PresetIn_defaults_def
      ALLOWED_FREE_TEMPLATES_def sql_of_flag_def sql_of_str_def alice_def db_presets_def db0_def)

subsection \<open>Isolation\<close>

lemma matches_owned: "matches pid uid r \<Longrightarrow> owned_by uid r"
  by (simp add: matches_def)

lemma owner_unique: "a \<noteq> b \<Longrightarrow> owned_by b r \<Longrightarrow> \<not> owned_by a r"
  by (auto simp: owned_by_def)

lemma find_map_filter:
  assumes "\<And>x. \<not> Q x \<Longrightarrow> \<not> P (f x)"
  shows "find P (map f (filter Q xs)) = find P (map f xs)"
  using assms by (induction xs) auto

lemma filter_filter_imp:
  assumes "\<And>x. P x \<Longrightarrow> Q x"
  shows "filter P (filter Q xs) = filter P xs"
  using assms by (induction xs) auto

lemma get_preset_own: "get_preset a pid (own_presets a db) = get_preset a pid db"
proof -
  have "\<not> matches pid a x" if "\<not> owned_by a x" for x
    using that matches_owned [of pid a x] by auto
  then have "find (matches pid a) (map (\<lambda>x. x) (filter (owned_by a) (presets db))) =
      find (matches pid a) (map (\<lambda>x. x) (presets db))"
    by (rule find_map_filter)
  then show ?thesis by (simp add: get_preset_def own_presets_def)
qed

lemma list_presets_own: "list_presets a (own_presets a db) = list_presets a db"
  by (simp add: list_presets_def own_presets_def)

lemma delete_preset_own:
  "fst (delete_preset a pid (own_presets a db)) = fst (delete_preset a pid db)"
proof -
  have "filter (matches pid a) (filter (owned_by a) (presets db)) =
      filter (matches pid a) (presets db)"
    by (rule filter_filter_imp) (rule matches_owned)
  then show ?thesis
    by (simp add: delete_preset_def own_presets_def del: filter_filter)
qed

lemma update_preset_own:
  assumes "set (map fst data) \<subseteq> set preset_columns"
  shows "fst (update_preset spliced a pid data (own_presets a db)) =
         fst (update_preset spliced a pid data db)"
proof -
  let ?f = "\<lambda>r. if matches pid a r then assign data r else r"
  have "\<not> matches pid a (?f x)" if "\<not> owned_by a x" for x
    using that matches_owned [of pid a x] by auto
  then have "find (matches pid a) (map ?f (filter (owned_by a) (presets db))) =
      find (matches pid a) (map ?f (presets db))"
    by (rule find_map_filter)
  then show ?thesis
    by (simp add: update_preset_columns [OF columns_list_all [OF assms]] own_presets_def)
qed

lemma update_preset_returns_own:
  assumes "set (map fst data) \<subseteq> set preset_columns"
    and "fst (update_preset spliced a pid data db) = Inr (Some r)"
  shows "owned_by a r"
  using assms(2)
  by (auto simp: update_preset_columns [OF columns_list_all [OF assms(1)]] find_Some_iff
      split: if_splits dest: matches_owned)

lemma update_preset_keeps_foreign_rows:
  assumes "set (map fst data) \<subseteq> set preset_columns"
  shows "list_all2 (\<lambda>r r'. r' = r \<or> owned_by a r)
     (presets db) (presets (snd (update_preset spliced a pid data db)))"
  by (auto simp: update_preset_rows [OF columns_list_all [OF assms]]
      list_all2_conv_all_nth list.rel_refl matches_owned)

lemma delete_preset_keeps_foreign_rows:
  "filter (\<lambda>r. \<not> owned_by a r) (presets (snd (delete_preset a pid db))) =
   filter (\<lambda>r. \<not> owned_by a r) (presets db)"
proof -
  have "filter (\<lambda>r. \<not> owned_by a r) (filter (\<lambda>r. \<not> matches pid a r) xs) =
        filter (\<lambda>r. \<not> owned_by a r) xs" for xs
    by (rule filter_filter_imp) (auto dest: matches_owned)
  then show ?thesis by (simp add: delete_preset_def)
qed

text \<open>
  Claim C9, for an update whose keys are names of columns of the table (the endpoint
  passes five of them).  What a preset operation returns to user \<open>a\<close> is what it
  returns on the store that holds the presets of \<open>a\<close> only, so it does not depend on
  any other user's presets; a preset owned by another user \<open>b\<close> is never returned by
  \<^verbatim>\<open>get_preset\<close>, \<^verbatim>\<open>list_presets\<close> or \<^verbatim>\<open>update_preset\<close> of \<open>a\<close>; an update by
  \<open>a\<close> leaves every row that \<open>a\<close> does not own as it is, in its place; and a
  deletion by \<open>a\<close> leaves the rows that \<open>a\<close> does not own exactly as they were.
\<close>

theorem preset_operations_owner_scoped:
  assumes "set (map fst data) \<subseteq> set preset_columns"
  shows
  "get_preset a pid db = get_preset a pid (own_presets a db) \<and>
   list_presets a db = list_presets a (own_presets a db) \<and>
   fst (update_preset spliced a pid data db) =
     fst (update_preset spliced a pid data (own_presets a db)) \<and>
   fst (delete_preset a pid db) = fst (delete_preset a pid (own_presets a db)) \<and>
   (a \<noteq> b \<and> owned_by b r \<longrightarrow>
      get_preset a pid db \<noteq> Some r \<and>
      r \<notin> set (list_presets a db) \<and>
      fst (update_preset spliced a pid data db) \<noteq> Inr (Some r)) \<and>
   list_all2 (\<lambda>r r'. r' = r \<or> owned_by a r)
     (presets db) (presets (snd (update_preset spliced a pid data db))) \<and>
   filter (\<lambda>r. \<not> owned_by a r) (presets (snd (delete_preset a pid db))) =
     filter (\<lambda>r. \<not> owned_by a r) (presets db)"
proof (intro conjI impI)
  assume ab: "a \<noteq> b \<and> owned_by b r"
  then have foreign: "\<not> owned_by a r" by (auto dest: owner_unique)
  show "get_preset a pid db \<noteq> Some r"
    using foreign by (auto simp: get_preset_def find_Some_iff dest: matches_owned)
  show "r \<notin> set (list_presets a db)"
    using foreign by (simp add: list_presets_def)
  show "fst (update_preset spliced a pid data db) \<noteq> Inr (Some r)"
    using foreign update_preset_returns_own [OF assms] by blast
qed (simp_all add: get_preset_own list_presets_own update_preset_own [OF assms]
      delete_preset_own update_preset_keeps_foreign_rows [OF assms]
      delete_preset_keeps_foreign_rows)

text \<open>
  Alice asks for, lists and updates by the id of Bob's preset 2 and never gets it; after
  her update Bob's preset is the row it was.
\<close>

theorem preset_operations_owner_scoped_witness:
  "set (map fst [(''name'', SqlStr ''mine'')]) \<subseteq> set preset_columns \<and>
   (1::int) \<noteq> 2 \<and>
   owned_by 2 [(''id'', SqlInt 2), (''user_id'', SqlInt 2), (''name'', SqlStr ''p2''),
     (''template'', SqlStr ''fastapi''), (''git_init'', SqlInt 0), (''use_venv'', SqlInt 0),
     (''license_type'', SqlStr ''MIT'')] \<and>
   get_preset 1 2 db_presets \<noteq>
     Some [(''id'', SqlInt 2), (''user_id'', SqlInt 2), (''name'', SqlStr ''p2''),
       (''template'', SqlStr ''fastapi''), (''git_init'', SqlInt 0), (''use_venv'', SqlInt 0),
       (''license_type'', SqlStr ''MIT'')] \<and>
   [(''id'', SqlInt 2), (''user_id'', SqlInt 2), (''name'', SqlStr ''p2''),
     (''template'', SqlStr ''fastapi''), (''git_init'', SqlInt 0), (''use_venv'', SqlInt 0),
     (''license_type'', SqlStr ''MIT'')] \<notin> set (list_presets 1 db_presets) \<and>
   fst (update_preset store_refuses 1 2 [(''name'', SqlStr ''mine'')] db_presets) \<noteq>
     Inr (Some [(''id'', SqlInt 2), (''user_id'', SqlInt 2), (''name'', SqlStr ''p2''),
       (''template'', SqlStr ''fastapi''), (''git_init'', SqlInt 0), (''use_venv'', SqlInt 0),
       (''license_type'', SqlStr ''MIT'')])"
proof -
  let ?r = "[(''id'', SqlInt 2), (''user_id'', SqlInt 2), (''name'', SqlStr ''p2''),
     (''template'', SqlStr ''fastapi''), (''git_init'', SqlInt 0), (''use_venv'', SqlInt 0),
     (''license_type'', SqlStr ''MIT'')]"
  have keys: "set (map fst [(''name'', SqlStr ''mine'')]) \<subseteq> set preset_columns"
    by (simp add: preset_columns_def)
  have own: "owned_by 2 ?r" by (simp add: owned_by_def)
  have ne: "(1::int) \<noteq> 2" by simp
  from preset_operations_owner_scoped [OF keys, where a = 1 and pid = 2
      and db = db_presets and spliced = store_refuses and b = 2 and r = ?r]
  have "(1::int) \<noteq> 2 \<and> owned_by 2 ?r \<longrightarrow>
      get_preset 1 2 db_presets \<noteq> Some ?r \<and>
      ?r \<notin> set (list_presets 1 db_presets) \<and>
      fst (update_preset store_refuses 1 2 [(''name'', SqlStr ''mine'')] db_presets) \<noteq>
        Inr (Some ?r)"
    by blast
  with keys own ne show ?thesis by blast
qed

section \<open>The connection pool\<close>

lemma queue_put_length:
  "queue_put maxsize q c = Some q' \<Longrightarrow> length q' = Suc (length q)"
  by (auto simp: queue_put_def split: if_splits)

lemma queue_put_bounded:
  "0 < maxsize \<Longrightarrow> queue_put maxsize q c = Some q' \<Longrightarrow> int (length q') \<le> maxsize"
  by (auto simp: queue_put_def split: if_splits)

lemma acquire_length: "length (snd (acquire q fresh)) \<le> length q"
  by (cases q) (auto simp: acquire_def queue_get_def split: option.splits)

lemma release_bounded:
  assumes "0 < maxsize" and "int (length q) \<le> maxsize"
    and "release maxsize conn borrowed fresh q = Some (q', closed)"
  shows "int (length q') \<le> maxsize"
  using assms
  by (auto simp: release_def split: if_splits option.splits dest: queue_put_bounded)

lemma pool_event_step_bounded:
  assumes "0 < maxsize" and "int (length q) \<le> maxsize"
    and "pool_event_step maxsize e q = Some q'"
  shows "int (length q') \<le> maxsize"
proof (cases e)
  case (Acquire fresh)
  with assms(3) have "q' = snd (acquire q fresh)" by simp
  with acquire_length [of q fresh] assms(2) show ?thesis by simp
next
  case (Release conn borrowed fresh)
  with assms(3) obtain closed where "release maxsize conn borrowed fresh q = Some (q', closed)"
    by auto
  with assms(1,2) show ?thesis by (rule release_bounded)
qed

lemma pool_run_bounded:
  "0 < maxsize \<Longrightarrow> int (length q) \<le> maxsize \<Longrightarrow> pool_run maxsize es q = Some q' \<Longrightarrow>
   int (length q') \<le> maxsize"
proof (induction es arbitrary: q)
  case Nil
  then show ?case by simp
next
  case (Cons e es)
  from Cons.prems(3) obtain q1 where step: "pool_event_step maxsize e q = Some q1"
    and rest: "pool_run maxsize es q1 = Some q'"
    by (auto split: option.splits)
  from Cons.prems(1,2) step have "int (length q1) \<le> maxsize"
    by (rule pool_event_step_bounded)
  with Cons.IH Cons.prems(1) rest show ?case by blast
qed

lemma fill_pool_bounded:
  "0 < maxsize \<Longrightarrow> int (length q) \<le> maxsize \<Longrightarrow> fill_pool maxsize cs q = Returns q' \<Longrightarrow>
   int (length q') \<le> maxsize"
proof (induction maxsize cs q rule: fill_pool.induct)
  case (1 maxsize q)
  then show ?case by simp
next
  case (2 maxsize rest q)
  then show ?case by simp
next
  case (3 maxsize c rest q)
  from "3.prems"(3) obtain q1 where put: "queue_put maxsize q c = Some q1"
    and rest: "fill_pool maxsize rest q1 = Returns q'"
    by (auto split: option.splits)
  from "3.prems"(1) put have "int (length q1) \<le> maxsize" by (rule queue_put_bounded)
  with "3.IH" put "3.prems"(1) rest show ?case by blast
qed

lemma init_pool_bounded:
  assumes "0 < POOL_MAX" and "init_pool POOL_MIN POOL_MAX connect None = Returns q"
  shows "int (length q) \<le> POOL_MAX"
  using assms fill_pool_bounded [of POOL_MAX "[]" "map connect [0..<nat POOL_MIN]" q]
  by (simp add: init_pool_def)

text \<open>
  Claim C6, amended.  A connection taken from the pool (the pool within its bound, or
  unbounded) and still open at its release is put back, so the pool is as large as before
  the acquisition.  One that is broken at its release is dropped; when the replacement
  can be opened it is put into the pool instead and the size is again as before; when the
  attempt to open it raises, the exception is dropped and the pool stays one connection
  smaller.  A connection that was opened because the pool stayed empty is closed at its
  release and the pool is not touched.  For a positive \<^verbatim>\<open>POOL_MAX\<close> the pool that
  \<^verbatim>\<open>init_pool\<close> returns, and the pool after any sequence of acquisitions and releases
  that started within the bound, hold at most \<^verbatim>\<open>POOL_MAX\<close> connections.
\<close>

theorem pool_release_and_bound:
  "(acquire q fallback = (Some (c, True), q') \<and> (maxsize \<le> 0 \<or> int (length q) \<le> maxsize) \<longrightarrow>
      release maxsize (c\<lparr>is_open := True\<rparr>) True fresh q' =
        Some (q' @ [c\<lparr>is_open := True\<rparr>], []) \<and>
      release maxsize (c\<lparr>is_open := False\<rparr>) True (Some new) q' = Some (q' @ [new], []) \<and>
      release maxsize (c\<lparr>is_open := False\<rparr>) True None q' = Some (q', []) \<and>
      length (q' @ [new]) = length q \<and> Suc (length q') = length q) \<and>
   (acquire q fallback = (Some (c, False), q') \<longrightarrow>
      q = [] \<and> q' = [] \<and> fallback = Some c \<and>
      release maxsize c False fresh q' = Some (q', [c])) \<and>
   release maxsize conn False fresh q = Some (q, [conn]) \<and>
   (0 < maxsize \<and> int (length q) \<le> maxsize \<and> pool_run maxsize events q = Some reached \<longrightarrow>
      int (length reached) \<le> maxsize) \<and>
   (0 < maxsize \<and> init_pool POOL_MIN maxsize connect None = Returns started \<longrightarrow>
      int (length started) \<le> maxsize)"
proof (intro conjI impI)
  assume a: "acquire q fallback = (Some (c, True), q') \<and>
    (maxsize \<le> 0 \<or> int (length q) \<le> maxsize)"
  then have q: "q = c # q'"
    by (cases q) (auto simp: acquire_def queue_get_def split: option.splits)
  with a have room: "\<not> (0 < maxsize \<and> maxsize \<le> int (length q'))" by auto
  show "release maxsize (c\<lparr>is_open := True\<rparr>) True fresh q' =
        Some (q' @ [c\<lparr>is_open := True\<rparr>], [])"
    using room by (simp add: release_def queue_put_def)
  show "release maxsize (c\<lparr>is_open := False\<rparr>) True (Some new) q' = Some (q' @ [new], [])"
    using room by (simp add: release_def queue_put_def)
  show "release maxsize (c\<lparr>is_open := False\<rparr>) True None q' = Some (q', [])"
    by (simp add: release_def)
  show "length (q' @ [new]) = length q" using q by simp
  show "Suc (length q') = length q" using q by simp
next
  assume a: "acquire q fallback = (Some (c, False), q')"
  then show "q = []" "q' = []" "fallback = Some c"
    by (cases q; auto simp: acquire_def queue_get_def split: option.splits)+
  show "release maxsize c False fresh q' = Some (q', [c])"
    by (simp add: release_def)
next
  show "release maxsize conn False fresh q = Some (q, [conn])"
    by (simp add: release_def)
next
  assume "0 < maxsize \<and> int (length q) \<le> maxsize \<and> pool_run maxsize events q = Some reached"
  then show "int (length reached) \<le> maxsize"
    using pool_run_bounded by blast
next
  assume "0 < maxsize \<and> init_pool POOL_MIN maxsize connect None = Returns started"
  then show "int (length started) \<le> maxsize"
    using init_pool_bounded by blast
qed

lemma acquire_two: "acquire [conn1, conn2] None = (Some (conn1, True), [conn2])"
  by (simp add: acquire_def queue_get_def)

lemma run_example:
  "pool_run 5 [Acquire None, Acquire (Some conn2), Release conn2 False None,
               Release (conn1\<lparr>is_open := False\<rparr>) True (Some conn2)] [conn1] = Some [conn2]"
  by (simp add: acquire_def queue_get_def release_def queue_put_def conn1_def)

text \<open>
  A pool of two connections with the bound 5: the three ways a borrowed connection is
  released, and a run with a fallback connection and a replacement.
\<close>

theorem pool_release_and_bound_witness:
  "acquire [conn1, conn2] None = (Some (conn1, True), [conn2]) \<and>
   release 5 (conn1\<lparr>is_open := True\<rparr>) True None [conn2] =
     Some ([conn2, conn1\<lparr>is_open := True\<rparr>], []) \<and>
   release 5 (conn1\<lparr>is_open := False\<rparr>) True (Some \<lparr>conn_id = 3, is_open = True\<rparr>) [conn2] =
     Some ([conn2, \<lparr>conn_id = 3, is_open = True\<rparr>], []) \<and>
   release 5 (conn1\<lparr>is_open := False\<rparr>) True None [conn2] = Some ([conn2], []) \<and>
   pool_run 5 [Acquire None, Acquire (Some conn2), Release conn2 False None,
               Release (conn1\<lparr>is_open := False\<rparr>) True (Some conn2)] [conn1] = Some [conn2] \<and>
   int (length [conn2]) \<le> 5"
proof -
  note inst = pool_release_and_bound [where q = "[conn1, conn2]" and fallback = None
      and c = conn1 and q' = "[conn2]" and maxsize = 5 and fresh = None
      and new = "\<lparr>conn_id = 3, is_open = True\<rparr>"]
  have bound: "(5::int) \<le> 0 \<or> int (length [conn1, conn2]) \<le> 5" by simp
  from inst [THEN conjunct1] acquire_two bound
  have r: "release 5 (conn1\<lparr>is_open := True\<rparr>) True None [conn2] =
        Some ([conn2] @ [conn1\<lparr>is_open := True\<rparr>], []) \<and>
      release 5 (conn1\<lparr>is_open := False\<rparr>) True (Some \<lparr>conn_id = 3, is_open = True\<rparr>) [conn2] =
        Some ([conn2] @ [\<lparr>conn_id = 3, is_open = True\<rparr>], []) \<and>
      release 5 (conn1\<lparr>is_open := False\<rparr>) True None [conn2] = Some ([conn2], [])"
    by blast
  have "int (length [conn2]) \<le> 5"
    using pool_release_and_bound [where q = "[conn1]" and maxsize = 5 and reached = "[conn2]"
        and events = "[Acquire None, Acquire (Some conn2), Release conn2 False None,
               Release (conn1\<lparr>is_open := False\<rparr>) True (Some conn2)]",
        THEN conjunct2, THEN conjunct2, THEN conjunct2, THEN conjunct1]
      run_example
    by simp
  with r acquire_two run_example show ?thesis by simp
qed

text \<open>
  Claim C6 as stated fails in two places.  A pool of one connection, that connection
  broken at its release while no new connection can be opened: the release returns and
  the pool is empty, so its size did not stay constant.  And with \<^verbatim>\<open>POOL_MAX = 0\<close> the
  queue is unbounded: \<^verbatim>\<open>init_pool\<close> with \<^verbatim>\<open>POOL_MIN = 1\<close> returns a pool of one
  connection, more than \<^verbatim>\<open>POOL_MAX\<close>.
\<close>

theorem pool_shrinks_or_unbounded_counterexample:
  "acquire [conn1] None = (Some (conn1, True), []) \<and>
   release 5 (conn1\<lparr>is_open := False\<rparr>) True None [] = Some ([], []) \<and>
   length ([] :: connection list) < length [conn1] \<and>
   init_pool 1 0 (\<lambda>i. Some conn1) None = Returns [conn1] \<and>
   int (length [conn1]) > 0"
  by (simp add: acquire_def queue_get_def release_def init_pool_def queue_put_def)

section \<open>Concurrent callers of the daily check\<close>

text \<open>A caller that runs its two steps with nothing in between is the daily check.\<close>

lemma call_steps_are_the_check:
  "(case call_step today uid L NotStarted db of
      (st, db') \<Rightarrow> call_step today uid L st db') =
   (case increment_call_and_check_limit today uid L db of
      (ok, db') \<Rightarrow> (Returned ok, db'))"
  by (simp add: call_step_def increment_call_and_check_limit_def split: option.splits)

lemma one_caller_alone:
  "run_schedule today uid L [0, 0] [NotStarted] db =
     ([Returned (fst (increment_call_and_check_limit today uid L db))],
      snd (increment_call_and_check_limit today uid L db))"
  by (simp add: call_step_def increment_call_and_check_limit_def split: option.splits)


text \<open>
  Claim C5 (of \<open>N + K\<close> concurrent daily checks exactly \<open>N\<close> return true), evaluated
  at the limit 2 with three callers for Alice on a day without rows.  The first caller
  finishes alone; the second and the third both read the counter 1 before either writes.
  Both pass the comparison and both increment: all three callers return true and the
  counter ends at 3.  The same three callers one after the other give true, true, false.
\<close>

theorem concurrent_daily_checks_exceed_limit:
  "fst (run_schedule day1 1 2 [0, 0, 1, 2, 1, 2] [NotStarted, NotStarted, NotStarted] db0) =
     [Returned True, Returned True, Returned True] \<and>
   calls_on (snd (run_schedule day1 1 2 [0, 0, 1, 2, 1, 2]
                    [NotStarted, NotStarted, NotStarted] db0)) 1 day1 = 3 \<and>
   fst (run_schedule day1 1 2 [0, 0, 1, 1, 2, 2] [NotStarted, NotStarted, NotStarted] db0) =
     [Returned True, Returned True, Returned False]"
  by (simp add: call_step_def select_usage_def insert_usage_def update_calls_def calls_on_def
      db0_def day1_def)

end
